theory Spec2Isabelle
  imports Main "HOL-Library.Multiset" "HOL-Library.Log_Nat"
begin

section \<open>Python values, exceptions and the REST client\<close>

text \<open>
  The plugins read decoded JSON: a reply is a dictionary, modelled as an association
  list from field names to scalar values, looked up with \<open>map_of\<close>.  A dictionary is
  falsy exactly when it has no entry, a list exactly when it is empty, and \<open>None\<close> is
  falsy.  A number is a Python int (unbounded) or a Python float; the section on
  Python floats says how a float is represented.
\<close>

datatype pyfloat = Fin rat | PosInf | NegInf | NaN

datatype pynum = PInt int | PFloat pyfloat

datatype pyval = PNone | PNum pynum | PStr string

type_synonym pydict = "(string \<times> pyval) list"

text \<open>
  The exceptions the two plugins can raise.  \<open>CheckError\<close> is
  \<open>nagiosplugin.CheckError\<close> with its message; the others are Python's built-in
  exceptions, raised outside the \<open>try\<close> blocks of the source.
\<close>

datatype pyerror =
    CheckError string
  | KeyError string
  | TypeError
  | ZeroDivisionError
  | OverflowError
  | ValueError

text \<open>
  One call of the REST client either raises an \<open>Exception\<close> (the text is its
  \<open>str(e)\<close>) or returns a value.
\<close>

datatype 'a call = Raises string | Returns 'a

text \<open>
  A space reply holds numeric counters only (JSON numbers); \<open>dict.get\<close> on it is
  \<open>map_of\<close>, with \<open>None\<close> for a missing key.
\<close>

type_synonym space = "(string \<times> pynum) list"

text \<open>
  The session object \<open>purestorage.FlashArray\<close>, reduced to the four methods the
  plugins call: \<open>list_messages(open=True)\<close>, \<open>get(space=True)\<close>,
  \<open>get_volume(volname, space=True)\<close> and \<open>invalidate_cookie()\<close>.
\<close>

record FlashArray =
  list_messages :: "pydict list option call"
  get :: "space list call"
  get_volume :: "string \<Rightarrow> space call"
  invalidate_cookie :: "unit call"

text \<open>
  The constructor \<open>purestorage.FlashArray(endpoint, api_token=apitoken)\<close> opens a
  session and may raise.  The remote array is a function of the number of sessions
  opened so far, so that a second attempt may answer differently from the first; the
  plugins thread that counter.
\<close>

type_synonym purestorage = "nat \<Rightarrow> string \<Rightarrow> string \<Rightarrow> FlashArray call"

section \<open>Metrics\<close>

text \<open>
  \<open>nagiosplugin.Metric(name, value, uom=None, min=None, max=None, context=None)\<close>,
  with the arguments as the plugins pass them.
\<close>

record Metric =
  name :: string
  value_m :: pynum
  uom :: "string option"
  min_m :: "pynum option"
  max_m :: "pynum option"
  context_m :: "string option"

section \<open>check_purefa_alert.py\<close>

record PureFAalert =
  endpoint :: string
  apitoken :: string
  info :: int
  warn :: int
  crit :: int

text \<open>
  \<open>__init__\<close>: the three counters start at zero.  The logger and its syslog handler
  are left out.
\<close>

definition PureFAalert_init :: "string \<Rightarrow> string \<Rightarrow> PureFAalert" where
  "PureFAalert_init e a = \<lparr>endpoint = e, apitoken = a, info = 0, warn = 0, crit = 0\<rparr>"

text \<open>The exception of both \<open>except\<close> clauses: \<open>CheckError(f'FA REST call returned "{e}"')\<close>.\<close>

definition rest_error :: "string \<Rightarrow> pyerror" where
  "rest_error e = CheckError (''FA REST call returned '' @ [CHR 0x22] @ e @ [CHR 0x22])"

text \<open>
  \<open>get_alerts\<close>: the session is opened, the messages listed and the cookie
  invalidated inside one \<open>try\<close>; whatever is raised there is re-raised as a
  \<open>CheckError\<close>.  One session is opened, whatever happens.
\<close>

definition get_alerts ::
  "purestorage \<Rightarrow> PureFAalert \<Rightarrow> nat \<Rightarrow> (pyerror + pydict list option) \<times> nat" where
  "get_alerts ps self n =
     (case ps n (endpoint self) (apitoken self) of
        Raises e \<Rightarrow> (Inl (rest_error e), Suc n)
      | Returns fa \<Rightarrow>
          (case list_messages fa of
             Raises e \<Rightarrow> (Inl (rest_error e), Suc n)
           | Returns fainfo \<Rightarrow>
               (case invalidate_cookie fa of
                  Raises e \<Rightarrow> (Inl (rest_error e), Suc n)
                | Returns u \<Rightarrow> (Inr fainfo, Suc n))))"

text \<open>
  The \<open>for alert in fainfo\<close> loop.  \<open>alert['current_severity']\<close> raises
  \<open>KeyError\<close> on a record without the field; the counters incremented before that
  stay incremented.
\<close>

fun probe_loop :: "pydict list \<Rightarrow> PureFAalert \<Rightarrow> pyerror option \<times> PureFAalert" where
  "probe_loop [] self = (None, self)"
| "probe_loop (alert # rest) self =
     (case map_of alert ''current_severity'' of
        None \<Rightarrow> (Some (KeyError ''current_severity''), self)
      | Some sev \<Rightarrow>
          probe_loop rest
            (if sev = PStr ''critical'' then self\<lparr>crit := crit self + 1\<rparr>
             else if sev = PStr ''warning'' then self\<lparr>warn := warn self + 1\<rparr>
             else if sev = PStr ''info'' then self\<lparr>info := info self + 1\<rparr>
             else self))"

text \<open>\<open>nagiosplugin.Metric(name, value, min=0)\<close>, as \<open>probe\<close> builds its three Metrics.\<close>

definition count_metric :: "string \<Rightarrow> int \<Rightarrow> Metric" where
  "count_metric nm v =
     \<lparr>name = nm, value_m = PInt v, uom = None, min_m = Some (PInt 0), max_m = None,
      context_m = None\<rparr>"

text \<open>
  \<open>probe\<close> of \<open>PureFAalert\<close>.  \<open>not fainfo\<close> holds for \<open>None\<close> and for the
  empty list.  The result carries the instance, whose counters the loop mutates, and
  the session counter.
\<close>

definition zero_metrics :: "Metric list" where
  "zero_metrics =
     [count_metric ''critical'' 0, count_metric ''warning'' 0, count_metric ''info'' 0]"

definition alert_probe ::
  "purestorage \<Rightarrow> PureFAalert \<Rightarrow> nat \<Rightarrow> (pyerror + Metric list) \<times> PureFAalert \<times> nat" where
  "alert_probe ps self n =
     (case get_alerts ps self n of
        (Inl e, n') \<Rightarrow> (Inl e, self, n')
      | (Inr None, n') \<Rightarrow> (Inr zero_metrics, self, n')
      | (Inr (Some []), n') \<Rightarrow> (Inr zero_metrics, self, n')
      | (Inr (Some (a # as)), n') \<Rightarrow>
          (case probe_loop (a # as) self of
             (Some e, self') \<Rightarrow> (Inl e, self', n')
           | (None, self') \<Rightarrow>
               (Inr [count_metric ''critical'' (crit self'),
                     count_metric ''warning'' (warn self'),
                     count_metric ''info'' (info self')], self', n')))"

section \<open>Python floats\<close>

text \<open>
  A Python float is an IEEE-754 binary64 number.  \<open>Fin q\<close> is the finite double whose
  exact value is the rational \<open>q\<close>; the sign of zero is not represented (Python's
  \<open>==\<close> identifies \<open>0.0\<close> and \<open>-0.0\<close>, and no operation used here tells them apart
  otherwise).  \<open>b64\<close> rounds a rational to the nearest double, ties to the even
  significand, with gradual underflow below \<open>2^-1022\<close> and overflow to an infinity from
  \<open>2^1024\<close> on.
\<close>

definition round_half_even :: "rat \<Rightarrow> int" where
  "round_half_even q =
     (let f = \<lfloor>q\<rfloor>; d = q - of_int f
      in if d < 1 / 2 then f else if 1 / 2 < d then f + 1
         else if even f then f else f + 1)"

text \<open>
  \<open>ilog2 q\<close> is the integer part of the binary logarithm of a positive \<open>q\<close>, from
  the bit lengths of its numerator and denominator.
\<close>

definition ilog2 :: "rat \<Rightarrow> int" where
  "ilog2 q =
     (case quotient_of q of (p, d) \<Rightarrow>
        (let k = bitlen p - bitlen d
         in if 2 powi k \<le> q then k else k - 1))"

definition b64 :: "rat \<Rightarrow> pyfloat" where
  "b64 q =
     (if q = 0 then Fin 0
      else
        (let a = \<bar>q\<bar>;
             e = max (ilog2 a - 52) (- 1074);
             r = of_int (round_half_even (a / 2 powi e)) * 2 powi e
         in if 2 ^ 1024 \<le> r then (if 0 < q then PosInf else NegInf)
            else Fin (if 0 < q then r else - r)))"

text \<open>
  \<open>float(x)\<close> for the result of \<open>dict.get\<close>: \<open>None\<close> raises \<open>TypeError\<close>, an int too
  large for a double raises \<open>OverflowError\<close>, a float is returned as it is.
\<close>

definition py_float :: "pynum option \<Rightarrow> pyerror + pyfloat" where
  "py_float x =
     (case x of
        None \<Rightarrow> Inl TypeError
      | Some (PFloat f) \<Rightarrow> Inr f
      | Some (PInt n) \<Rightarrow>
          (case b64 (of_int n) of Fin r \<Rightarrow> Inr (Fin r) | _ \<Rightarrow> Inl OverflowError))"

text \<open>
  \<open>int(x)\<close>: truncation towards zero for a finite float, \<open>OverflowError\<close> for an
  infinity, \<open>ValueError\<close> for a NaN, \<open>TypeError\<close> for \<open>None\<close>.
\<close>

definition py_int :: "pynum option \<Rightarrow> pyerror + int" where
  "py_int x =
     (case x of
        None \<Rightarrow> Inl TypeError
      | Some (PInt n) \<Rightarrow> Inr n
      | Some (PFloat (Fin q)) \<Rightarrow> Inr (if 0 \<le> q then \<lfloor>q\<rfloor> else \<lceil>q\<rceil>)
      | Some (PFloat NaN) \<Rightarrow> Inl ValueError
      | Some (PFloat _) \<Rightarrow> Inl OverflowError)"

definition fsgn :: "pyfloat \<Rightarrow> int" where
  "fsgn a = (case a of Fin x \<Rightarrow> (if x < 0 then - 1 else if x = 0 then 0 else 1)
             | PosInf \<Rightarrow> 1 | NegInf \<Rightarrow> - 1 | NaN \<Rightarrow> 0)"

definition signed_inf :: "int \<Rightarrow> pyfloat" where
  "signed_inf s = (if 0 < s then PosInf else NegInf)"

text \<open>Float division \<open>a / b\<close>: a zero divisor raises, the rest is IEEE division.\<close>

definition truediv :: "pyfloat \<Rightarrow> pyfloat \<Rightarrow> pyerror + pyfloat" where
  "truediv a b =
     (if b = Fin 0 then Inl ZeroDivisionError
      else Inr
        (case (a, b) of
           (NaN, _) \<Rightarrow> NaN
         | (_, NaN) \<Rightarrow> NaN
         | (Fin x, Fin y) \<Rightarrow> b64 (x / y)
         | (Fin x, _) \<Rightarrow> Fin 0
         | (_, Fin y) \<Rightarrow> signed_inf (fsgn a * fsgn b)
         | (_, _) \<Rightarrow> NaN))"

text \<open>Float multiplication \<open>a * b\<close> (IEEE; an infinity times zero is a NaN).\<close>

definition fmul :: "pyfloat \<Rightarrow> pyfloat \<Rightarrow> pyfloat" where
  "fmul a b =
     (case (a, b) of
        (NaN, _) \<Rightarrow> NaN
      | (_, NaN) \<Rightarrow> NaN
      | (Fin x, Fin y) \<Rightarrow> b64 (x * y)
      | (_, _) \<Rightarrow> (if fsgn a * fsgn b = 0 then NaN else signed_inf (fsgn a * fsgn b)))"

text \<open>
  \<open>round(x, ndigits)\<close> on a float, for \<open>0 \<le> ndigits\<close>: infinities and NaNs round to
  themselves, more than 323 digits leave \<open>x\<close> as it is, and otherwise the exact value
  of \<open>x\<close> is rounded to the nearest multiple of \<open>10^-ndigits\<close> (ties to the even
  multiple) and that decimal is converted back to the nearest double;
  \<open>OverflowError\<close> if the result is not finite.
\<close>

definition py_round :: "pyfloat \<Rightarrow> nat \<Rightarrow> pyerror + pyfloat" where
  "py_round x ndigits =
     (case x of
        Fin q \<Rightarrow>
          (if 323 < ndigits then Inr x
           else
             (case b64 (of_int (round_half_even (q * 10 ^ ndigits)) / 10 ^ ndigits) of
                Fin r \<Rightarrow> Inr (Fin r)
              | _ \<Rightarrow> Inl OverflowError))
      | _ \<Rightarrow> Inr x)"

section \<open>check_purefa_occpy.py\<close>

record PureFAoccpy =
  endpoint :: string
  apitoken :: string
  volname :: "string option"
  percentage :: bool

text \<open>
  The request of \<open>get_space\<close>: \<open>fa.get(space=True)[0]\<close> without a volume name,
  \<open>fa.get_volume(volname, space=True)\<close> with one.  The index \<open>[0]\<close> raises
  \<open>IndexError\<close> on an empty reply list.
\<close>

definition space_request :: "string option \<Rightarrow> FlashArray \<Rightarrow> space call" where
  "space_request v fa =
     (case v of
        None \<Rightarrow>
          (case get fa of
             Raises e \<Rightarrow> Raises e
           | Returns [] \<Rightarrow> Raises ''list index out of range''
           | Returns (x # xs) \<Rightarrow> Returns x)
      | Some vn \<Rightarrow> get_volume fa vn)"

text \<open>
  \<open>get_space\<close>: the session is opened, the request sent and the cookie invalidated
  inside one \<open>try\<close>; whatever is raised there is re-raised as a \<open>CheckError\<close>.
\<close>

definition get_space ::
  "purestorage \<Rightarrow> PureFAoccpy \<Rightarrow> nat \<Rightarrow> (pyerror + space) \<times> nat" where
  "get_space ps self n =
     (case ps n (endpoint self) (apitoken self) of
        Raises e \<Rightarrow> (Inl (rest_error e), Suc n)
      | Returns fa \<Rightarrow>
          (case space_request (volname self) fa of
             Raises e \<Rightarrow> (Inl (rest_error e), Suc n)
           | Returns fainfo \<Rightarrow>
               (case invalidate_cookie fa of
                  Raises e \<Rightarrow> (Inl (rest_error e), Suc n)
                | Returns u \<Rightarrow> (Inr fainfo, Suc n))))"

text \<open>The expression \<open>round(float(a)/float(b), 2) * 100\<close>, evaluated left to right.\<close>

definition occupancy_pct :: "pynum option \<Rightarrow> pynum option \<Rightarrow> pyerror + pyfloat" where
  "occupancy_pct a b =
     (case py_float a of
        Inl e \<Rightarrow> Inl e
      | Inr x \<Rightarrow>
          (case py_float b of
             Inl e \<Rightarrow> Inl e
           | Inr y \<Rightarrow>
               (case truediv x y of
                  Inl e \<Rightarrow> Inl e
                | Inr q \<Rightarrow>
                    (case py_round q 2 of
                       Inl e \<Rightarrow> Inl e
                     | Inr r \<Rightarrow> Inr (fmul r (Fin 100))))))"

text \<open>
  \<open>probe\<close> of \<open>PureFAoccpy\<close>.  It returns the empty string for a falsy record,
  modelled as \<open>None\<close>, and one bare Metric otherwise.
\<close>

definition occpy_probe ::
  "purestorage \<Rightarrow> PureFAoccpy \<Rightarrow> nat \<Rightarrow> (pyerror + Metric option) \<times> nat" where
  "occpy_probe ps self n =
     (case get_space ps self n of
        (Inl e, n') \<Rightarrow> (Inl e, n')
      | (Inr fainfo, n') \<Rightarrow>
          (if fainfo = [] then (Inr None, n')
           else
             (case volname self of
                None \<Rightarrow>
                  (case occupancy_pct (map_of fainfo ''total'') (map_of fainfo ''capacity'') of
                     Inl e \<Rightarrow> (Inl e, n')
                   | Inr occupancy \<Rightarrow>
                       (Inr (Some \<lparr>name = ''FA occupancy'', value_m = PFloat occupancy,
                                    uom = Some ''%'', min_m = Some (PInt 0),
                                    max_m = Some (PInt 100),
                                    context_m = Some ''occupancy''\<rparr>), n'))
              | Some v \<Rightarrow>
                  (if percentage self then
                     (case occupancy_pct (map_of fainfo ''total'') (map_of fainfo ''size'') of
                        Inl e \<Rightarrow> (Inl e, n')
                      | Inr occupancy \<Rightarrow>
                          (Inr (Some \<lparr>name = v @ '' occupancy'', value_m = PFloat occupancy,
                                       uom = Some ''%'', min_m = Some (PInt 0),
                                       max_m = Some (PInt 100),
                                       context_m = Some ''occupancy''\<rparr>), n'))
                   else
                     (case py_int (map_of fainfo ''volumes'') of
                        Inl e \<Rightarrow> (Inl e, n')
                      | Inr occupancy \<Rightarrow>
                          (Inr (Some \<lparr>name = v @ '' occupancy'', value_m = PInt occupancy,
                                       uom = Some ''B'', min_m = Some (PInt 0),
                                       max_m = None,
                                       context_m = Some ''occupancy''\<rparr>), n'))))))"

section \<open>The evaluation engine\<close>

text \<open>
  The plugins hand their metrics to the \<open>nagiosplugin\<close> library
  (\<open>ScalarContext\<close>, \<open>Check\<close>), whose code is not part of the repository's sources.
  Every definition of this section is modelled from the repository's specification,
  sections 3, 4.1, 4.4, 4.5, 6 and 7, and says so.
\<close>

text \<open>Modelled from the spec: the four verdicts of section 3.\<close>

datatype Verdict = OK | WARNING | CRITICAL | UNKNOWN

text \<open>
  Modelled from the spec: the comparison \<open><=\<close> of section 4.1 between limits and
  metric values, as Python compares numbers: an int by its exact value, a NaN false
  with everything.
\<close>

definition num_val :: "pynum \<Rightarrow> pyfloat" where
  "num_val v = (case v of PInt n \<Rightarrow> Fin (of_int n) | PFloat f \<Rightarrow> f)"

definition fle :: "pyfloat \<Rightarrow> pyfloat \<Rightarrow> bool" where
  "fle a b =
     (case (a, b) of
        (NaN, _) \<Rightarrow> False
      | (_, NaN) \<Rightarrow> False
      | (NegInf, _) \<Rightarrow> True
      | (_, PosInf) \<Rightarrow> True
      | (Fin x, Fin y) \<Rightarrow> x \<le> y
      | (_, _) \<Rightarrow> False)"

subsection \<open>Range Parser\<close>

text \<open>
  Modelled from the spec: the Range Parser of section 4.1 (\<open>nagiosplugin.Range\<close>,
  not in the sources).  A side of a range is omitted (it then defaults to the
  metric's declared bound), the explicit infinity marker \<open>~\<close>, or a number.
\<close>

datatype bound = Omitted | Unbounded | Limit rat

record Range =
  invert :: bool
  start :: bound
  end_r :: bound

datatype ParseError = ParseError

text \<open>
  Modelled from the spec: the numbers of a range expression (section 4.1 only says
  "number"): an optional minus sign, decimal digits, optionally a point and more
  digits.  The value is the exact decimal.
\<close>

definition digit_val :: "char \<Rightarrow> nat option" where
  "digit_val c =
     (if CHR ''0'' = c then Some 0 else if CHR ''1'' = c then Some 1
      else if CHR ''2'' = c then Some 2 else if CHR ''3'' = c then Some 3
      else if CHR ''4'' = c then Some 4 else if CHR ''5'' = c then Some 5
      else if CHR ''6'' = c then Some 6 else if CHR ''7'' = c then Some 7
      else if CHR ''8'' = c then Some 8 else if CHR ''9'' = c then Some 9
      else None)"

text \<open>
  Modelled from the spec: \<open>parse_digits acc s\<close> reads a string of decimal digits, most
  significant first.
\<close>

fun parse_digits :: "nat \<Rightarrow> string \<Rightarrow> nat option" where
  "parse_digits acc [] = Some acc"
| "parse_digits acc (c # cs) =
     (case digit_val c of
        None \<Rightarrow> None
      | Some d \<Rightarrow> parse_digits (10 * acc + d) cs)"

text \<open>
  Modelled from the spec: an unsigned decimal, digits optionally followed by a point
  and more digits.
\<close>

definition parse_unsigned :: "string \<Rightarrow> rat option" where
  "parse_unsigned s =
     (let ip = takeWhile (\<lambda>c. c \<noteq> CHR ''.'') s;
          rest = dropWhile (\<lambda>c. c \<noteq> CHR ''.'') s
      in if ip = [] then None
         else
           (case parse_digits 0 ip of
              None \<Rightarrow> None
            | Some i \<Rightarrow>
                (case rest of
                   [] \<Rightarrow> Some (of_nat i)
                 | dot # fp \<Rightarrow>
                     (if fp = [] then None
                      else
                        (case parse_digits 0 fp of
                           None \<Rightarrow> None
                         | Some f \<Rightarrow> Some (of_nat i + of_nat f / 10 ^ length fp))))))"

text \<open>Modelled from the spec: a number with its optional sign.\<close>

definition parse_number :: "string \<Rightarrow> rat option" where
  "parse_number s =
     (case s of
        [] \<Rightarrow> None
      | c # cs \<Rightarrow>
          (if c = CHR ''-'' then map_option uminus (parse_unsigned cs)
           else parse_unsigned s))"

text \<open>
  Modelled from the spec: one side of \<open>start:end\<close> (section 4.1): empty, the marker
  \<open>~\<close>, or a number; anything else is a parse error.
\<close>

definition parse_bound :: "string \<Rightarrow> ParseError + bound" where
  "parse_bound s =
     (if s = [] then Inr Omitted
      else if s = ''~'' then Inr Unbounded
      else (case parse_number s of None \<Rightarrow> Inl ParseError | Some a \<Rightarrow> Inr (Limit a)))"

text \<open>
  Modelled from the spec: \<open>start > end\<close> is a parse error (section 4.1); it can be
  seen only where both sides are numbers.
\<close>

definition verify :: "bool \<Rightarrow> bound \<Rightarrow> bound \<Rightarrow> ParseError + Range" where
  "verify neg s e =
     (case (s, e) of
        (Limit a, Limit b) \<Rightarrow>
          (if b < a then Inl ParseError else Inr \<lparr>invert = neg, start = s, end_r = e\<rparr>)
      | (_, _) \<Rightarrow> Inr \<lparr>invert = neg, start = s, end_r = e\<rparr>)"

text \<open>Modelled from the spec: the range of the empty expression, which always accepts.\<close>

definition always :: Range where
  "always = \<lparr>invert = False, start = Unbounded, end_r = Unbounded\<rparr>"

text \<open>
  Modelled from the spec: an expression after its optional \<open>@\<close>: \<open>start:end\<close> when
  it has a colon, the shorthand \<open>N\<close> for \<open>0:N\<close> when it has none.
\<close>

definition parse_body :: "bool \<Rightarrow> string \<Rightarrow> ParseError + Range" where
  "parse_body neg body =
     (if CHR '':'' \<in> set body then
        (let a = takeWhile (\<lambda>c. c \<noteq> CHR '':'') body;
             b = tl (dropWhile (\<lambda>c. c \<noteq> CHR '':'') body)
         in case parse_bound a of
              Inl err \<Rightarrow> Inl err
            | Inr s \<Rightarrow>
                (case parse_bound b of
                   Inl err \<Rightarrow> Inl err
                 | Inr e \<Rightarrow> verify neg s e))
      else
        (case parse_number body of
           None \<Rightarrow> Inl ParseError
         | Some n \<Rightarrow> verify neg (Limit 0) (Limit n)))"

text \<open>
  Modelled from the spec: \<open>parse\<close> of section 4.1: the empty string, or an optional
  leading \<open>@\<close> (which inverts the test) and a body.
\<close>

definition parse :: "string \<Rightarrow> ParseError + Range" where
  "parse r =
     (case r of
        [] \<Rightarrow> Inr always
      | c # cs \<Rightarrow> (if c = CHR ''@'' then parse_body True cs else parse_body False r))"

text \<open>
  Modelled from the spec: the limit a side of a range stands for; an omitted side is
  the metric's declared bound, and infinite when the metric declares none.
\<close>

definition limit_of :: "bound \<Rightarrow> pynum option \<Rightarrow> pyfloat option" where
  "limit_of b dflt =
     (case b of
        Limit a \<Rightarrow> Some (Fin a)
      | Unbounded \<Rightarrow> None
      | Omitted \<Rightarrow> map_option num_val dflt)"

text \<open>
  Modelled from the spec: \<open>accepts rng mn mx v\<close> of section 4.1, the range applied to a
  value, \<open>mn\<close> and \<open>mx\<close> being the metric's declared bounds.  An infinite side puts
  no condition on the value.
\<close>

definition accepts :: "Range \<Rightarrow> pynum option \<Rightarrow> pynum option \<Rightarrow> pyfloat \<Rightarrow> bool" where
  "accepts rng mn mx v =
     (let inside =
            ((case limit_of (start rng) mn of None \<Rightarrow> True | Some lo \<Rightarrow> fle lo v)
           \<and> (case limit_of (end_r rng) mx of None \<Rightarrow> True | Some hi \<Rightarrow> fle v hi))
      in if invert rng then \<not> inside else inside)"

subsection \<open>Threshold Evaluator\<close>

text \<open>
  Modelled from the spec: an optional range applied to a Metric (section 4.4); an
  absent range accepts everything.
\<close>

definition accepted :: "Range option \<Rightarrow> Metric \<Rightarrow> bool" where
  "accepted rng m =
     (case rng of
        None \<Rightarrow> True
      | Some r \<Rightarrow> accepts r (min_m m) (max_m m) (num_val (value_m m)))"

text \<open>
  Modelled from the spec: the Threshold Evaluator of section 4.4
  (\<open>nagiosplugin.ScalarContext.evaluate\<close>, not in the sources).  Critical is tested
  first.
\<close>

definition evaluate :: "Metric \<Rightarrow> Range option \<Rightarrow> Range option \<Rightarrow> Verdict" where
  "evaluate m warning critical =
     (if \<not> accepted critical m then CRITICAL
      else if \<not> accepted warning m then WARNING
      else OK)"

subsection \<open>Verdict Aggregator\<close>

text \<open>
  Modelled from the spec: the rank of a verdict, which is its exit code (section 6), so
  that \<open>OK < WARNING < CRITICAL\<close> and \<open>UNKNOWN\<close> dominates.
\<close>

definition severity :: "Verdict \<Rightarrow> nat" where
  "severity v = (case v of OK \<Rightarrow> 0 | WARNING \<Rightarrow> 1 | CRITICAL \<Rightarrow> 2 | UNKNOWN \<Rightarrow> 3)"

text \<open>Modelled from the spec: the more severe of two verdicts.\<close>

definition worse :: "Verdict \<Rightarrow> Verdict \<Rightarrow> Verdict" where
  "worse a b = (if severity a < severity b then b else a)"

text \<open>
  Modelled from the spec: the Verdict Aggregator of section 4.5
  (\<open>nagiosplugin.Check\<close>, not in the sources): the maximum severity, and \<open>UNKNOWN\<close>
  when there is no verdict at all.
\<close>

definition aggregate :: "Verdict list \<Rightarrow> Verdict" where
  "aggregate vs = (case vs of [] \<Rightarrow> UNKNOWN | v # rest \<Rightarrow> foldl worse v rest)"

subsection \<open>The check\<close>

text \<open>
  Modelled from the spec: a range context (\<open>nagiosplugin.ScalarContext\<close>, not in the
  sources) is a name with its two optional ranges.
\<close>

record ScalarContext =
  ctx_name :: string
  warning :: "Range option"
  critical :: "Range option"

text \<open>
  Modelled from the spec: an expression that was not given is no range; one that was
  given is parsed, and a malformed one is fatal (section 7).
\<close>

definition parse_opt :: "string option \<Rightarrow> ParseError + Range option" where
  "parse_opt x =
     (case x of
        None \<Rightarrow> Inr None
      | Some r \<Rightarrow> (case parse r of Inl err \<Rightarrow> Inl err | Inr rng \<Rightarrow> Inr (Some rng)))"

text \<open>
  Modelled from the spec: the constructor \<open>ScalarContext(name, warning, critical)\<close>,
  which parses the warning expression, then the critical one.
\<close>

definition ScalarContext_new ::
  "string \<Rightarrow> string option \<Rightarrow> string option \<Rightarrow> ParseError + ScalarContext" where
  "ScalarContext_new nm w c =
     (case parse_opt w of
        Inl err \<Rightarrow> Inl err
      | Inr wr \<Rightarrow>
          (case parse_opt c of
             Inl err \<Rightarrow> Inl err
           | Inr cr \<Rightarrow> Inr \<lparr>ctx_name = nm, warning = wr, critical = cr\<rparr>))"

text \<open>
  Modelled from the spec: a Metric is scored in the context named by its \<open>context\<close>
  argument, or by its own name when it has none (section 3).
\<close>

definition context_name :: "Metric \<Rightarrow> string" where
  "context_name m = (case context_m m of None \<Rightarrow> name m | Some c \<Rightarrow> c)"

text \<open>
  Modelled from the spec: the verdict of one Metric among the contexts of the check;
  a Metric without a context counts as \<open>UNKNOWN\<close>.
\<close>

definition evaluate_metric :: "ScalarContext list \<Rightarrow> Metric \<Rightarrow> Verdict" where
  "evaluate_metric contexts m =
     (case find (\<lambda>c. ctx_name c = context_name m) contexts of
        None \<Rightarrow> UNKNOWN
      | Some c \<Rightarrow> evaluate m (warning c) (critical c))"

text \<open>
  Modelled from the spec: \<open>nagiosplugin.Check.main\<close> (not in the sources) reduced to
  its verdict: a failed \<open>probe\<close> is \<open>UNKNOWN\<close> (section 7), otherwise every Metric is
  scored and the verdicts are aggregated (section 4.5).
\<close>

definition check :: "ScalarContext list \<Rightarrow> pyerror + Metric list \<Rightarrow> Verdict" where
  "check contexts r =
     (case r of
        Inl e \<Rightarrow> UNKNOWN
      | Inr metrics \<Rightarrow> aggregate (map (evaluate_metric contexts) metrics))"

section \<open>The two main functions\<close>

text \<open>
  The command line as \<open>parse_args\<close> returns it: an option that was not given is
  \<open>None\<close>, except \<open>--warning\<close> and \<open>--critical\<close> of the occupancy check, whose
  default is the empty string.  \<open>main\<close> builds the contexts first, then runs the
  check; the result is the overall verdict and the session counter.
\<close>

record alert_args =
  endpoint :: string
  apitoken :: string
  warning_crit :: "string option"
  critical_crit :: "string option"
  warning_warn :: "string option"
  critical_warn :: "string option"
  warning_info :: "string option"
  critical_info :: "string option"

definition alert_contexts :: "alert_args \<Rightarrow> ParseError + ScalarContext list" where
  "alert_contexts args =
     (case ScalarContext_new ''critical'' (warning_crit args) (critical_crit args) of
        Inl err \<Rightarrow> Inl err
      | Inr c1 \<Rightarrow>
          (case ScalarContext_new ''warning'' (warning_warn args) (critical_warn args) of
             Inl err \<Rightarrow> Inl err
           | Inr c2 \<Rightarrow>
               (case ScalarContext_new ''info'' (warning_info args) (critical_info args) of
                  Inl err \<Rightarrow> Inl err
                | Inr c3 \<Rightarrow> Inr [c1, c2, c3])))"

definition alert_main :: "purestorage \<Rightarrow> alert_args \<Rightarrow> nat \<Rightarrow> Verdict \<times> nat" where
  "alert_main ps args n =
     (case alert_contexts args of
        Inl err \<Rightarrow> (UNKNOWN, n)
      | Inr contexts \<Rightarrow>
          (case alert_probe ps (PureFAalert_init (endpoint args) (apitoken args)) n of
             (r, self', n') \<Rightarrow> (check contexts r, n')))"

record occpy_args =
  endpoint :: string
  apitoken :: string
  vol :: "string option"
  warning :: string
  critical :: string
  percentage :: bool

text \<open>\<open>__init__\<close> of \<open>PureFAoccpy\<close>, without the logger.\<close>

definition PureFAoccpy_init ::
  "string \<Rightarrow> string \<Rightarrow> string option \<Rightarrow> bool \<Rightarrow> PureFAoccpy" where
  "PureFAoccpy_init e a v p =
     \<lparr>PureFAoccpy.endpoint = e, apitoken = a, volname = v, percentage = p\<rparr>"

text \<open>
  Modelled from the spec: what the check makes of the result of \<open>probe\<close>: a bare
  Metric is a list of one, the empty result is no Metric at all (section 4.3).
\<close>

definition metrics_of :: "Metric option \<Rightarrow> Metric list" where
  "metrics_of r = (case r of None \<Rightarrow> [] | Some m \<Rightarrow> [m])"

definition occpy_main :: "purestorage \<Rightarrow> occpy_args \<Rightarrow> nat \<Rightarrow> Verdict \<times> nat" where
  "occpy_main ps args n =
     (case ScalarContext_new ''occupancy'' (Some (warning args)) (Some (critical args)) of
        Inl err \<Rightarrow> (UNKNOWN, n)
      | Inr c \<Rightarrow>
          (case occpy_probe ps
                  (PureFAoccpy_init (endpoint args) (apitoken args) (vol args) (percentage args)) n of
             (r, n') \<Rightarrow> (check [c] (map_sum id metrics_of r), n')))"

section \<open>Notions used in the statements\<close>

text \<open>
  The number of records of a reply whose \<open>current_severity\<close> field equals a given
  string, and the records of a reply that may be absent.
\<close>

definition severity_count :: "string \<Rightarrow> pydict list \<Rightarrow> int" where
  "severity_count s recs =
     int (length (filter (\<lambda>alert. map_of alert ''current_severity'' = Some (PStr s)) recs))"

definition records_of :: "pydict list option \<Rightarrow> pydict list" where
  "records_of fainfo = (case fainfo of None \<Rightarrow> [] | Some recs \<Rightarrow> recs)"

text \<open>A number that Python's \<open>==\<close> finds equal to zero.\<close>

definition is_zero :: "pynum \<Rightarrow> bool" where
  "is_zero x = (x = PInt 0 \<or> x = PFloat (Fin 0))"

text \<open>
  What a session raises that is opened, sends one request and invalidates its
  cookie: the text of the first exception, or \<open>None\<close> when all three calls return.
\<close>

definition session_error :: "FlashArray call \<Rightarrow> (FlashArray \<Rightarrow> 'r call) \<Rightarrow> string option" where
  "session_error c request =
     (case c of
        Raises e \<Rightarrow> Some e
      | Returns fa \<Rightarrow>
          (case request fa of
             Raises e \<Rightarrow> Some e
           | Returns r \<Rightarrow>
               (case invalidate_cookie fa of Raises e \<Rightarrow> Some e | Returns u \<Rightarrow> None)))"

text \<open>
  \<open>probe_again k\<close> calls \<open>probe\<close> on one instance \<open>k + 1\<close> times in a row and
  returns what the last call returns.
\<close>

fun probe_again ::
  "nat \<Rightarrow> purestorage \<Rightarrow> PureFAalert \<Rightarrow> nat \<Rightarrow> (pyerror + Metric list) \<times> PureFAalert \<times> nat" where
  "probe_again 0 ps self n = alert_probe ps self n"
| "probe_again (Suc k) ps self n =
     (case alert_probe ps self n of (r, self', n') \<Rightarrow> probe_again k ps self' n')"

text \<open>
  Concrete arrays for the examples: a session that answers every call, with given
  alert records and space replies, and a client that always opens that session.
\<close>

definition demo_array :: "pydict list option \<Rightarrow> space list \<Rightarrow> space \<Rightarrow> FlashArray" where
  "demo_array msgs sp vsp =
     \<lparr>list_messages = Returns msgs, get = Returns sp, get_volume = (\<lambda>v. Returns vsp),
      invalidate_cookie = Returns ()\<rparr>"

definition demo_rest :: "FlashArray \<Rightarrow> purestorage" where
  "demo_rest fa = (\<lambda>i e a. Returns fa)"

text \<open>A client whose first session fails and whose later sessions would succeed.\<close>

definition demo_flaky :: "string \<Rightarrow> FlashArray \<Rightarrow> purestorage" where
  "demo_flaky err fa = (\<lambda>i e a. if i = 0 then Raises err else Returns fa)"

definition demo_alerts :: "pydict list" where
  "demo_alerts =
     [ [(''current_severity'', PStr ''critical'')],
      [(''current_severity'', PStr ''critical'')],
      [(''current_severity'', PStr ''warning'')] ]"

definition no_thresholds :: "string \<Rightarrow> string \<Rightarrow> alert_args" where
  "no_thresholds e a =
     \<lparr>alert_args.endpoint = e, alert_args.apitoken = a, warning_crit = None,
      critical_crit = None, warning_warn = None, critical_warn = None,
      warning_info = None, critical_info = None\<rparr>"

section \<open>Rounding to binary64\<close>

lemma powi2_add: "(2::rat) powi (m + n) = 2 powi m * 2 powi n"
  by (simp add: power_int_add)

lemma powi2_nat: "0 \<le> k \<Longrightarrow> (2::rat) powi k = 2 ^ nat k"
  by (simp add: power_int_def)

lemma powi2_Suc: "(2::rat) powi (k + 1) = 2 * 2 powi k"
  by (simp add: power_int_add)

lemma powi2_mono: "k \<le> l \<Longrightarrow> (2::rat) powi k \<le> 2 powi l"
  by (simp add: power_int_increasing)

lemma bitlen_pos: "0 < x \<Longrightarrow> 1 \<le> bitlen x"
  using bitlen_eq_zero_iff[of x] bitlen_nonneg[of x] by linarith

lemma bitlen_rat_bounds:
  assumes "0 < x"
  shows "(2::rat) powi (bitlen x - 1) \<le> of_int x" and "of_int x < (2::rat) powi (bitlen x)"
proof -
  have b: "1 \<le> bitlen x" using assms by (rule bitlen_pos)
  have "(2::int) ^ nat (bitlen x - 1) \<le> x" using bitlen_bounds[OF assms] by simp
  then have "(of_int ((2::int) ^ nat (bitlen x - 1)) :: rat) \<le> of_int x"
    by (simp only: of_int_le_iff)
  then show "(2::rat) powi (bitlen x - 1) \<le> of_int x"
    using b by (simp add: powi2_nat)
  have "x < (2::int) ^ nat (bitlen x)" using bitlen_bounds[OF assms] by simp
  then have "(of_int x :: rat) < of_int ((2::int) ^ nat (bitlen x))"
    by (simp only: of_int_less_iff)
  then show "of_int x < (2::rat) powi (bitlen x)"
    using b by (simp add: powi2_nat)
qed

lemma ilog2_bounds:
  assumes "0 < q"
  shows "2 powi (ilog2 q) \<le> q \<and> q < 2 powi (ilog2 q + 1)"
proof -
  obtain p d where pd: "quotient_of q = (p, d)" by (cases "quotient_of q")
  have d: "0 < d" using pd by (rule quotient_of_denom_pos)
  have q: "q = of_int p / of_int d" using pd by (rule quotient_of_div)
  have p: "0 < p" using assms d q by (simp add: zero_less_divide_iff)
  define k where "k = bitlen p - bitlen d"
  have dr: "(0::rat) < of_int d" using d by simp
  have "2 powi (k - 1) * of_int d < 2 powi (k - 1) * (2::rat) powi (bitlen d)"
    using bitlen_rat_bounds(2)[OF d] by simp
  also have "\<dots> = 2 powi (bitlen p - 1)"
    unfolding k_def powi2_add[symmetric] by simp
  also have "\<dots> \<le> of_int p" using bitlen_rat_bounds(1)[OF p] .
  finally have lo: "2 powi (k - 1) < q"
    using dr unfolding q by (simp add: pos_less_divide_eq)
  have "of_int p < (2::rat) powi (bitlen p)" using bitlen_rat_bounds(2)[OF p] .
  also have "\<dots> = 2 powi (k + 1) * 2 powi (bitlen d - 1)"
    unfolding k_def powi2_add[symmetric] by simp
  also have "\<dots> \<le> 2 powi (k + 1) * of_int d"
    using bitlen_rat_bounds(1)[OF d] by simp
  finally have hi: "q < 2 powi (k + 1)"
    using dr unfolding q by (simp add: pos_divide_less_eq)
  have il: "ilog2 q = (if 2 powi k \<le> q then k else k - 1)"
    by (simp add: ilog2_def pd k_def Let_def)
  show ?thesis
  proof (cases "2 powi k \<le> q")
    case True
    then show ?thesis using hi il by simp
  next
    case False
    then show ?thesis using lo il by simp
  qed
qed

lemma ilog2_unique:
  assumes "2 powi k \<le> q" and "q < 2 powi (k + 1)"
  shows "ilog2 q = k"
proof -
  have q: "0 < q" using assms(1) zero_less_power_int[of "2::rat" k] by linarith
  note b = ilog2_bounds[OF q]
  have "\<not> ilog2 q + 1 \<le> k"
  proof
    assume "ilog2 q + 1 \<le> k"
    then have "(2::rat) powi (ilog2 q + 1) \<le> 2 powi k" by (rule powi2_mono)
    then show False using b assms by linarith
  qed
  moreover have "\<not> k + 1 \<le> ilog2 q"
  proof
    assume "k + 1 \<le> ilog2 q"
    then have "(2::rat) powi (k + 1) \<le> 2 powi (ilog2 q)" by (rule powi2_mono)
    then show False using b assms by linarith
  qed
  ultimately show ?thesis by linarith
qed

lemma rhe_int: "round_half_even (of_int n) = n"
  by (simp add: round_half_even_def)

lemma floor_rat_numeral:
  "\<lfloor>(numeral a :: rat) / numeral b\<rfloor> = numeral a div numeral b"
  using floor_divide_of_int_eq[of "numeral a" "numeral b", where ?'a = rat] by simp

lemma b64_pos:
  assumes "2 powi k \<le> q" and "q < 2 powi (k + 1)" and "- 1022 \<le> k"
  shows "b64 q =
    (let r = of_int (round_half_even (q / 2 powi (k - 52))) * 2 powi (k - 52)
     in if 2 ^ 1024 \<le> r then PosInf else Fin r)"
proof -
  have q: "0 < q" using assms(1) zero_less_power_int[of "2::rat" k] by linarith
  have "ilog2 q = k" using assms(1,2) by (rule ilog2_unique)
  moreover have "max (k - 52) (- 1074) = k - 52" using assms(3) by simp
  ultimately show ?thesis using q by (simp add: b64_def Let_def)
qed

lemma powi2_pos: "0 < (2::rat) powi k"
  by simp

lemma powi2_diff: "(2::rat) powi (m - n) = 2 powi m / 2 powi n"
  by (simp add: power_int_diff)

lemma powi2_less: "k < l \<Longrightarrow> (2::rat) powi k < 2 powi l"
  by (simp add: power_int_strict_increasing)

lemma rhe_cases:
  "round_half_even x = \<lfloor>x\<rfloor> \<or> (round_half_even x = \<lfloor>x\<rfloor> + 1 \<and> of_int \<lfloor>x\<rfloor> + 1 / 2 \<le> x)"
  by (auto simp: round_half_even_def Let_def)

lemma rhe_upper: "of_int (round_half_even x) \<le> x + 1"
proof -
  have f: "(of_int \<lfloor>x\<rfloor> :: rat) \<le> x" by (rule of_int_floor_le)
  from rhe_cases[of x] show ?thesis
  proof
    assume "round_half_even x = \<lfloor>x\<rfloor>"
    then have "(of_int (round_half_even x) :: rat) = of_int \<lfloor>x\<rfloor>" by simp
    then show ?thesis using f by linarith
  next
    assume "round_half_even x = \<lfloor>x\<rfloor> + 1 \<and> of_int \<lfloor>x\<rfloor> + 1 / 2 \<le> x"
    then have "(of_int (round_half_even x) :: rat) = of_int \<lfloor>x\<rfloor> + 1" by simp
    then show ?thesis using f by linarith
  qed
qed

lemma rhe_lower: "x - 1 \<le> of_int (round_half_even x)"
proof -
  have f: "x < of_int \<lfloor>x\<rfloor> + 1" by linarith
  from rhe_cases[of x] show ?thesis
  proof
    assume "round_half_even x = \<lfloor>x\<rfloor>"
    then have "(of_int (round_half_even x) :: rat) = of_int \<lfloor>x\<rfloor>" by simp
    then show ?thesis using f by linarith
  next
    assume "round_half_even x = \<lfloor>x\<rfloor> + 1 \<and> of_int \<lfloor>x\<rfloor> + 1 / 2 \<le> x"
    then have "(of_int (round_half_even x) :: rat) = of_int \<lfloor>x\<rfloor> + 1" by simp
    then show ?thesis using f by linarith
  qed
qed

lemma rhe_nonneg: "0 \<le> x \<Longrightarrow> 0 \<le> round_half_even x"
  using rhe_cases[of x] by (auto simp: zero_le_floor) 

lemma rhe_le_int: "x \<le> of_int n \<Longrightarrow> round_half_even x \<le> n"
proof -
  assume h: "x \<le> of_int n"
  have f: "\<lfloor>x\<rfloor> \<le> n" using h by (simp add: floor_le_iff)
  show ?thesis
  proof (cases "round_half_even x = \<lfloor>x\<rfloor>")
    case True
    then show ?thesis using f by simp
  next
    case False
    then have r: "round_half_even x = \<lfloor>x\<rfloor> + 1" and g: "of_int \<lfloor>x\<rfloor> + 1 / 2 \<le> x"
      using rhe_cases[of x] by auto
    have "(of_int \<lfloor>x\<rfloor> :: rat) < of_int n" using g h by linarith
    then have "\<lfloor>x\<rfloor> < n" by simp
    then show ?thesis using r by simp
  qed
qed

lemma rhe_ge_int: "of_int n \<le> x \<Longrightarrow> n \<le> round_half_even x"
proof -
  assume "of_int n \<le> x"
  then have "n \<le> \<lfloor>x\<rfloor>" by (simp add: le_floor_iff)
  then show ?thesis using rhe_cases[of x] by auto
qed


lemma b64_unfold:
  assumes "q \<noteq> 0"
  obtains k e m where "2 powi k \<le> \<bar>q\<bar>" and "\<bar>q\<bar> < 2 powi (k + 1)"
    and "e = max (k - 52) (- 1074)" and "m = round_half_even (\<bar>q\<bar> / 2 powi e)"
    and "0 \<le> m" and "m \<le> 2 ^ 53"
    and "b64 q = (if (2::rat) ^ 1024 \<le> of_int m * 2 powi e
                  then (if 0 < q then PosInf else NegInf)
                  else Fin (if 0 < q then of_int m * 2 powi e else - (of_int m * 2 powi e)))"
proof -
  define k where "k = ilog2 \<bar>q\<bar>"
  define e where "e = max (k - 52) (- 1074)"
  define m where "m = round_half_even (\<bar>q\<bar> / 2 powi e)"
  have a: "0 < \<bar>q\<bar>" using assms by simp
  have kb: "2 powi k \<le> \<bar>q\<bar>" "\<bar>q\<bar> < 2 powi (k + 1)"
    using ilog2_bounds[OF a] by (simp_all add: k_def)
  have m0: "0 \<le> m" unfolding m_def by (rule rhe_nonneg) simp
  have "k + 1 = 53 + (k - 52)" by simp
  then have "(2::rat) powi (k + 1) = 2 powi 53 * 2 powi (k - 52)"
    by (simp only: powi2_add)
  also have "\<dots> \<le> 2 powi 53 * 2 powi e"
    by (simp add: e_def power_int_increasing)
  finally have "\<bar>q\<bar> < 2 powi 53 * 2 powi e" using kb(2) by linarith
  then have "\<bar>q\<bar> / 2 powi e < 2 powi 53"
    by (simp add: pos_divide_less_eq)
  then have "\<bar>q\<bar> / 2 powi e \<le> of_int (2 ^ 53)" by simp
  then have m53: "m \<le> 2 ^ 53" unfolding m_def by (rule rhe_le_int)
  have b: "b64 q = (if (2::rat) ^ 1024 \<le> of_int m * 2 powi e
                  then (if 0 < q then PosInf else NegInf)
                  else Fin (if 0 < q then of_int m * 2 powi e else - (of_int m * 2 powi e)))"
    unfolding k_def e_def m_def b64_def Let_def using assms by (simp only: if_False)
  show ?thesis using that[OF kb e_def m_def m0 m53 b] .
qed


lemma b64_repr:
  assumes "b64 z = Fin q"
  shows "\<exists>m e. \<bar>q\<bar> = of_int m * 2 powi e \<and> 0 \<le> m \<and> m \<le> 2 ^ 53 \<and> - 1074 \<le> e
           \<and> \<bar>q\<bar> < (2::rat) ^ 1024"
proof (cases "z = 0")
  case True
  then have q: "q = 0" using assms by (simp add: b64_def)
  have c: "\<bar>q\<bar> = of_int 0 * 2 powi 0 \<and> (0::int) \<le> 0 \<and> (0::int) \<le> 2 ^ 53
      \<and> - 1074 \<le> (0::int) \<and> \<bar>q\<bar> < (2::rat) ^ 1024"
    unfolding q by simp
  show ?thesis by (rule exI[of _ "0::int"], rule exI[of _ "0::int"]) (rule c)
next
  case False
  obtain k e m where kb: "2 powi k \<le> \<bar>z\<bar>" "\<bar>z\<bar> < 2 powi (k + 1)"
    and e: "e = max (k - 52) (- 1074)" and md: "m = round_half_even (\<bar>z\<bar> / 2 powi e)"
    and m: "0 \<le> m" "m \<le> 2 ^ 53"
    and b: "b64 z = (if (2::rat) ^ 1024 \<le> of_int m * 2 powi e
                  then (if 0 < z then PosInf else NegInf)
                  else Fin (if 0 < z then of_int m * 2 powi e else - (of_int m * 2 powi e)))"
    by (rule b64_unfold[OF False])
  have r0: "(0::rat) \<le> of_int m * 2 powi e" using m(1) by simp
  have lt: "\<not> (2::rat) ^ 1024 \<le> of_int m * 2 powi e"
  proof
    assume "(2::rat) ^ 1024 \<le> of_int m * 2 powi e"
    then have "b64 z = (if 0 < z then PosInf else NegInf)" using b by (simp only: if_True)
    then show False using assms by (simp split: if_splits)
  qed
  have "Fin q = Fin (if 0 < z then of_int m * 2 powi e else - (of_int m * 2 powi e))"
    using b assms lt by (simp only: if_False)
  then have "q = (if 0 < z then of_int m * 2 powi e else - (of_int m * 2 powi e))"
    by (simp only: pyfloat.inject)
  then have "\<bar>q\<bar> = of_int m * 2 powi e" using r0 by (simp split: if_splits)
  then have q: "\<bar>q\<bar> = of_int m * 2 powi e \<and> 0 \<le> m \<and> m \<le> 2 ^ 53 \<and> - 1074 \<le> e
           \<and> \<bar>q\<bar> < (2::rat) ^ 1024"
    using lt e m by (simp only: not_le max.cobounded2 simp_thms)
  show ?thesis by (rule exI[of _ m], rule exI[of _ e]) (rule q)
qed


lemma powi2_le_cancel: "(2::rat) powi k \<le> 2 powi l \<Longrightarrow> k \<le> l"
proof (rule ccontr)
  assume a: "(2::rat) powi k \<le> 2 powi l" and "\<not> k \<le> l"
  then have "l < k" by simp
  then have "(2::rat) powi l < 2 powi k" by (rule powi2_less)
  then show False using a by simp
qed

lemma b64_idem:
  assumes "\<bar>q\<bar> = of_int m * 2 powi e" and "0 \<le> m" and "m \<le> 2 ^ 53"
    and "- 1074 \<le> e" and "\<bar>q\<bar> < (2::rat) ^ 1024"
  shows "b64 q = Fin q"
proof (cases "q = 0")
  case True
  then show ?thesis by (simp add: b64_def)
next
  case False
  obtain k e' m' where kb: "2 powi k \<le> \<bar>q\<bar>" "\<bar>q\<bar> < 2 powi (k + 1)"
    and e': "e' = max (k - 52) (- 1074)" and md: "m' = round_half_even (\<bar>q\<bar> / 2 powi e')"
    and m': "0 \<le> m'" "m' \<le> 2 ^ 53"
    and b: "b64 q = (if (2::rat) ^ 1024 \<le> of_int m' * 2 powi e'
                  then (if 0 < q then PosInf else NegInf)
                  else Fin (if 0 < q then of_int m' * 2 powi e' else - (of_int m' * 2 powi e')))"
    by (rule b64_unfold[OF False])
  have "\<exists>j::int. \<bar>q\<bar> / 2 powi e' = of_int j"
  proof (cases "e' \<le> e")
    case True
    have "\<bar>q\<bar> / 2 powi e' = of_int m * (2 powi e / 2 powi e')" using assms(1) by simp
    also have "\<dots> = of_int m * 2 powi (e - e')" by (simp only: powi2_diff)
    also have "\<dots> = of_int m * 2 ^ nat (e - e')" using True by (simp add: powi2_nat)
    also have "\<dots> = of_int (m * 2 ^ nat (e - e'))" by simp
    finally show ?thesis by blast
  next
    case False
    then have ek: "e' = k - 52" and lt: "e < k - 52" using e' assms(4) by simp_all
    have "of_int m * (2::rat) powi e \<le> of_int (2 ^ 53) * 2 powi e"
      using assms(3) by (intro mult_right_mono) (simp_all only: of_int_le_iff powi2_pos[THEN less_imp_le])
    also have "\<dots> = 2 powi 53 * 2 powi e" by simp
    also have "\<dots> = 2 powi (53 + e)" by (simp only: powi2_add)
    finally have up: "\<bar>q\<bar> \<le> 2 powi (53 + e)" using assms(1) by simp
    then have "(2::rat) powi k \<le> 2 powi (53 + e)" using kb(1) by linarith
    then have "k \<le> 53 + e" by (rule powi2_le_cancel)
    then have k: "k = 53 + e" using lt by simp
    have q: "\<bar>q\<bar> = 2 powi (53 + e)" using up kb(1) k by simp
    have "e' = e + 1" using ek k by simp
    then have "\<bar>q\<bar> / 2 powi e' = 2 powi (53 + e) / 2 powi (e + 1)" using q by simp
    also have "\<dots> = 2 powi ((53 + e) - (e + 1))" by (simp only: powi2_diff)
    also have "\<dots> = of_int (2 ^ 52)" by simp
    finally show ?thesis by blast
  qed
  then obtain j :: int where j: "\<bar>q\<bar> / 2 powi e' = of_int j" by blast
  have "m' = j" unfolding md j by (rule rhe_int)
  then have "of_int m' * 2 powi e' = \<bar>q\<bar> / 2 powi e' * 2 powi e'" using j by simp
  also have "\<dots> = \<bar>q\<bar>" by simp
  finally have r: "of_int m' * 2 powi e' = \<bar>q\<bar>" .
  have "b64 q = Fin (if 0 < q then \<bar>q\<bar> else - \<bar>q\<bar>)"
    using b assms(5) unfolding r by (simp only: not_le[symmetric] if_False)
  then show ?thesis using False by (simp split: if_splits)
qed


lemma b64_finite:
  assumes "\<bar>y\<bar> < (2::rat) ^ 1023"
  shows "\<exists>r. b64 y = Fin r"
proof (cases "y = 0")
  case True
  then show ?thesis by (simp add: b64_def)
next
  case False
  obtain k e m where kb: "2 powi k \<le> \<bar>y\<bar>" "\<bar>y\<bar> < 2 powi (k + 1)"
    and e: "e = max (k - 52) (- 1074)" and md: "m = round_half_even (\<bar>y\<bar> / 2 powi e)"
    and m: "0 \<le> m" "m \<le> 2 ^ 53"
    and b: "b64 y = (if (2::rat) ^ 1024 \<le> of_int m * 2 powi e
                  then (if 0 < y then PosInf else NegInf)
                  else Fin (if 0 < y then of_int m * 2 powi e else - (of_int m * 2 powi e)))"
    by (rule b64_unfold[OF False])
  have "of_int m \<le> \<bar>y\<bar> / 2 powi e + 1" unfolding md by (rule rhe_upper)
  then have "of_int m * 2 powi e \<le> (\<bar>y\<bar> / 2 powi e + 1) * 2 powi e"
    by (intro mult_right_mono) (simp_all only: powi2_pos[THEN less_imp_le])
  also have "\<dots> = \<bar>y\<bar> + 2 powi e" by (simp add: algebra_simps)
  finally have r: "of_int m * 2 powi e \<le> \<bar>y\<bar> + 2 powi e" .
  have p: "(2::rat) powi e \<le> \<bar>y\<bar> \<or> (2::rat) powi e \<le> 1"
  proof (cases "- 1074 \<le> k - 52")
    case True
    then have "e = k - 52" using e by simp
    then have "(2::rat) powi e \<le> 2 powi k" by (simp add: power_int_increasing)
    then show ?thesis using kb(1) by linarith
  next
    case False
    then have "e = - 1074" using e by simp
    then have "(2::rat) powi e \<le> 2 powi 0" by (simp only: powi2_mono)
    then show ?thesis by simp
  qed
  have h: "(2::rat) ^ 1024 = 2 ^ 1023 + 2 ^ 1023" by simp
  have o: "(1::rat) < 2 ^ 1023" by simp
  have "of_int m * 2 powi e < (2::rat) ^ 1024"
    using r p assms o unfolding h by linarith
  then have "b64 y = Fin (if 0 < y then of_int m * 2 powi e else - (of_int m * 2 powi e))"
    using b by (simp only: not_le[symmetric] if_False)
  then show ?thesis by (rule exI)
qed

lemma b64_nonzero:
  assumes "1 \<le> \<bar>z\<bar>"
  shows "b64 z \<noteq> Fin 0"
proof -
  have z: "z \<noteq> 0" using assms by auto
  obtain k e m where kb: "2 powi k \<le> \<bar>z\<bar>" "\<bar>z\<bar> < 2 powi (k + 1)"
    and e: "e = max (k - 52) (- 1074)" and md: "m = round_half_even (\<bar>z\<bar> / 2 powi e)"
    and m: "0 \<le> m" "m \<le> 2 ^ 53"
    and b: "b64 z = (if (2::rat) ^ 1024 \<le> of_int m * 2 powi e
                  then (if 0 < z then PosInf else NegInf)
                  else Fin (if 0 < z then of_int m * 2 powi e else - (of_int m * 2 powi e)))"
    by (rule b64_unfold[OF z])
  have "(2::rat) powi 0 < 2 powi (k + 1)" using assms kb(2) by simp
  then have "\<not> k + 1 \<le> 0" using powi2_mono[of "k + 1" 0] by linarith
  then have k0: "0 \<le> k" by simp
  then have ek: "e = k - 52" using e by simp
  have "(2::rat) powi 52 * 2 powi e = 2 powi k" unfolding ek powi2_add[symmetric] by simp
  then have "(2::rat) powi 52 * 2 powi e \<le> \<bar>z\<bar>" using kb(1) by simp
  then have "(2::rat) powi 52 \<le> \<bar>z\<bar> / 2 powi e" by (simp add: pos_le_divide_eq)
  then have "of_int (2 ^ 52) \<le> \<bar>z\<bar> / 2 powi e" by simp
  then have "2 ^ 52 \<le> m" unfolding md by (rule rhe_ge_int)
  then have "0 < m" by simp
  then have pos: "(0::rat) < of_int m * 2 powi e" by simp
  show ?thesis
  proof
    assume "b64 z = Fin 0"
    then have "(if 0 < z then of_int m * 2 powi e else - (of_int m * 2 powi e)) = (0::rat)"
      using b by (simp split: if_splits)
    then show False using pos by (simp split: if_splits)
  qed
qed


lemma rhe_abs: "\<bar>of_int (round_half_even x)\<bar> \<le> \<bar>x\<bar> + (1::rat)"
  using rhe_upper[of x] rhe_lower[of x] by linarith

lemma round2_finite:
  assumes "b64 z = Fin q"
  shows "\<exists>r. b64 (of_int (round_half_even (q * 10 ^ 2)) / 10 ^ 2) = Fin r"
proof (cases "\<bar>q\<bar> < 2 ^ 53")
  case True
  let ?y = "of_int (round_half_even (q * 10 ^ 2)) / (10 ^ 2 :: rat)"
  have "\<bar>?y\<bar> = \<bar>of_int (round_half_even (q * 10 ^ 2))\<bar> / (10 ^ 2 :: rat)" by simp
  also have "\<dots> \<le> (\<bar>q * 10 ^ 2\<bar> + 1) / 10 ^ 2"
    using rhe_abs[of "q * 10 ^ 2"] by (simp only: divide_right_mono zero_le_power zero_le_numeral)
  also have "\<dots> = \<bar>q\<bar> + 1 / 100" by (simp add: abs_mult add_divide_distrib)
  finally have "\<bar>?y\<bar> < 2 ^ 53 + 1" using True by linarith
  moreover have "(2::rat) ^ 53 + 1 < 2 ^ 1023" by simp
  ultimately have "\<bar>?y\<bar> < 2 ^ 1023" by linarith
  then show ?thesis by (rule b64_finite)
next
  case False
  from b64_repr[OF assms] obtain m e where
    q: "\<bar>q\<bar> = of_int m * 2 powi e" and m: "0 \<le> m" "m \<le> 2 ^ 53"
    and e: "- 1074 \<le> e" and lt: "\<bar>q\<bar> < (2::rat) ^ 1024"
    by blast
  have e0: "0 \<le> e"
  proof (rule ccontr)
    assume "\<not> 0 \<le> e"
    then have "e \<le> - 1" by simp
    then have "(2::rat) powi e \<le> 2 powi (- 1)" by (rule powi2_mono)
    then have h: "(2::rat) powi e \<le> 1 / 2" by simp
    have "of_int m * (2::rat) powi e \<le> of_int (2 ^ 53) * 2 powi e"
      using m(2) by (intro mult_right_mono) (simp_all only: of_int_le_iff powi2_pos[THEN less_imp_le])
    also have "\<dots> \<le> of_int (2 ^ 53) * (1 / 2)"
      using h by (intro mult_left_mono) simp_all
    also have "\<dots> < 2 ^ 53" by simp
    finally show False using False q by simp
  qed
  define j where "j = (if 0 \<le> q then m * 2 ^ nat e else - (m * 2 ^ nat e))"
  have "\<bar>q\<bar> = of_int (m * 2 ^ nat e)" using q e0 by (simp add: powi2_nat)
  then have qj: "q = of_int j" unfolding j_def by (auto simp: abs_if split: if_splits)
  have "q * 10 ^ 2 = of_int (j * 100)" unfolding qj by simp
  then have "round_half_even (q * 10 ^ 2) = j * 100" by (simp only: rhe_int)
  then have "of_int (round_half_even (q * 10 ^ 2)) / (10 ^ 2 :: rat) = q" unfolding qj by simp
  moreover have "b64 q = Fin q" using q m e lt by (rule b64_idem)
  ultimately show ?thesis by simp
qed

lemma py_round_total:
  assumes "b64 z = Fin q"
  shows "\<exists>r. py_round (Fin q) 2 = Inr (Fin r)"
proof -
  from round2_finite[OF assms] obtain r where
    "b64 (of_int (round_half_even (q * 10 ^ 2)) / 10 ^ 2) = Fin r" by blast
  then have "py_round (Fin q) 2 = Inr (Fin r)" by (simp add: py_round_def)
  then show ?thesis by (rule exI)
qed

section \<open>The Alert Counter\<close>

lemma probe_loop_counts:
  "\<forall>alert\<in>set recs. map_of alert ''current_severity'' \<noteq> None \<Longrightarrow>
   probe_loop recs self =
     (None, self\<lparr>info := info self + severity_count ''info'' recs,
                 warn := warn self + severity_count ''warning'' recs,
                 crit := crit self + severity_count ''critical'' recs\<rparr>)"
proof (induction recs arbitrary: self)
  case Nil
  then show ?case by (simp add: severity_count_def)
next
  case (Cons alert recs)
  from Cons.prems obtain sev where sev: "map_of alert ''current_severity'' = Some sev"
    by auto
  have rest: "\<forall>alert\<in>set recs. map_of alert ''current_severity'' \<noteq> None"
    using Cons.prems by simp
  show ?case
    using sev by (simp add: Cons.IH[OF rest] severity_count_def)
qed

lemma alert_probe_nonempty:
  assumes "ps n (PureFAalert.endpoint self) (PureFAalert.apitoken self) = Returns fa"
    and "list_messages fa = Returns (Some recs)" and "invalidate_cookie fa = Returns u"
    and "recs \<noteq> []"
    and "\<forall>alert\<in>set recs. map_of alert ''current_severity'' \<noteq> None"
  shows "alert_probe ps self n =
     (Inr [count_metric ''critical'' (crit self + severity_count ''critical'' recs),
           count_metric ''warning'' (warn self + severity_count ''warning'' recs),
           count_metric ''info'' (info self + severity_count ''info'' recs)],
      self\<lparr>info := info self + severity_count ''info'' recs,
           warn := warn self + severity_count ''warning'' recs,
           crit := crit self + severity_count ''critical'' recs\<rparr>, Suc n)"
proof -
  obtain a as where recs: "recs = a # as" using assms(4) by (cases recs) auto
  show ?thesis
    using assms(1,2,3) probe_loop_counts[OF assms(5), of self]
    by (simp add: alert_probe_def get_alerts_def recs)
qed

lemma alert_probe_empty:
  assumes "ps n (PureFAalert.endpoint self) (PureFAalert.apitoken self) = Returns fa"
    and "list_messages fa = Returns fainfo" and "invalidate_cookie fa = Returns u"
    and "records_of fainfo = []"
  shows "alert_probe ps self n = (Inr zero_metrics, self, Suc n)"
  using assms
  by (cases fainfo) (simp_all add: alert_probe_def get_alerts_def records_of_def)


lemma probe_again_general:
  assumes "\<forall>i. ps i e a = Returns fa"
    and "list_messages fa = Returns (Some recs)" and "invalidate_cookie fa = Returns u"
    and "recs \<noteq> []"
    and "\<forall>alert\<in>set recs. map_of alert ''current_severity'' \<noteq> None"
    and "PureFAalert.endpoint self = e" and "PureFAalert.apitoken self = a"
  shows "probe_again k ps self n =
     (Inr [count_metric ''critical'' (crit self + int (Suc k) * severity_count ''critical'' recs),
           count_metric ''warning'' (warn self + int (Suc k) * severity_count ''warning'' recs),
           count_metric ''info'' (info self + int (Suc k) * severity_count ''info'' recs)],
      self\<lparr>info := info self + int (Suc k) * severity_count ''info'' recs,
           warn := warn self + int (Suc k) * severity_count ''warning'' recs,
           crit := crit self + int (Suc k) * severity_count ''critical'' recs\<rparr>, n + Suc k)"
  using assms(6,7)
proof (induction k arbitrary: self n)
  case 0
  have "ps n (PureFAalert.endpoint self) (PureFAalert.apitoken self) = Returns fa"
    using assms(1) 0 by simp
  from alert_probe_nonempty[of ps n self, OF this assms(2,3,4,5)] show ?case by simp
next
  case (Suc k)
  have "ps n (PureFAalert.endpoint self) (PureFAalert.apitoken self) = Returns fa"
    using assms(1) Suc.prems by simp
  note step = alert_probe_nonempty[of ps n self, OF this assms(2,3,4,5)]
  define self' where "self' = self\<lparr>info := info self + severity_count ''info'' recs,
           warn := warn self + severity_count ''warning'' recs,
           crit := crit self + severity_count ''critical'' recs\<rparr>"
  have e: "PureFAalert.endpoint self' = e" "PureFAalert.apitoken self' = a"
    using Suc.prems by (simp_all add: self'_def)
  show ?case
    using step Suc.IH[OF e, of "Suc n"]
    by (simp add: self'_def algebra_simps)
qed

text \<open>
  Claim C3.  On a freshly constructed Alert Counter, whatever the list of alert
  records the array returns (the empty list and an absent reply included), \<open>probe\<close>
  returns exactly three Metrics, in the order critical, warning, info, each with
  \<open>min = 0\<close> and no \<open>max\<close>, whose values are the numbers of records whose
  \<open>current_severity\<close> is \<open>critical\<close>, \<open>warning\<close> and \<open>info\<close>.  With no record all
  three are 0 and, no threshold being configured, the overall verdict is \<open>OK\<close>.
\<close>

theorem alert_probe_three_metrics:
  assumes "ps n e a = Returns fa"
    and "list_messages fa = Returns fainfo" and "invalidate_cookie fa = Returns u"
    and "\<forall>alert\<in>set (records_of fainfo). map_of alert ''current_severity'' \<noteq> None"
  shows "fst (alert_probe ps (PureFAalert_init e a) n) =
     Inr [\<lparr>name = ''critical'',
           value_m = PInt (severity_count ''critical'' (records_of fainfo)),
           uom = None, min_m = Some (PInt 0), max_m = None, context_m = None\<rparr>,
          \<lparr>name = ''warning'',
           value_m = PInt (severity_count ''warning'' (records_of fainfo)),
           uom = None, min_m = Some (PInt 0), max_m = None, context_m = None\<rparr>,
          \<lparr>name = ''info'',
           value_m = PInt (severity_count ''info'' (records_of fainfo)),
           uom = None, min_m = Some (PInt 0), max_m = None, context_m = None\<rparr>]
    \<and> (records_of fainfo = [] \<longrightarrow>
         severity_count ''critical'' (records_of fainfo) = 0
       \<and> severity_count ''warning'' (records_of fainfo) = 0
       \<and> severity_count ''info'' (records_of fainfo) = 0
       \<and> fst (alert_main ps (no_thresholds e a) n) = OK)"
proof (cases "records_of fainfo = []")
  case True
  have p: "ps n (PureFAalert.endpoint (PureFAalert_init e a))
            (PureFAalert.apitoken (PureFAalert_init e a)) = Returns fa"
    using assms(1) by (simp add: PureFAalert_init_def)
  note pr = alert_probe_empty[of ps n "PureFAalert_init e a", OF p assms(2,3) True]
  have ctx: "alert_contexts (no_thresholds e a) =
      Inr [\<lparr>ctx_name = ''critical'', warning = None, critical = None\<rparr>,
           \<lparr>ctx_name = ''warning'', warning = None, critical = None\<rparr>,
           \<lparr>ctx_name = ''info'', warning = None, critical = None\<rparr>]"
    by (simp add: alert_contexts_def no_thresholds_def ScalarContext_new_def parse_opt_def)
  have ea: "alert_args.endpoint (no_thresholds e a) = e"
    "alert_args.apitoken (no_thresholds e a) = a"
    by (simp_all add: no_thresholds_def)
  have v: "fst (alert_main ps (no_thresholds e a) n) = OK"
    using pr
    by (simp add: alert_main_def ctx ea check_def zero_metrics_def
        evaluate_metric_def context_name_def count_metric_def evaluate_def accepted_def
        aggregate_def worse_def severity_def)
  show ?thesis
    using pr True v by (simp add: zero_metrics_def count_metric_def severity_count_def)
next
  case False
  then obtain recs where f: "fainfo = Some recs" and ne: "recs \<noteq> []"
    by (cases fainfo) (auto simp: records_of_def)
  have p: "ps n (PureFAalert.endpoint (PureFAalert_init e a))
            (PureFAalert.apitoken (PureFAalert_init e a)) = Returns fa"
    using assms(1) by (simp add: PureFAalert_init_def)
  have h: "\<forall>alert\<in>set recs. map_of alert ''current_severity'' \<noteq> None"
    using assms(4) f by (simp add: records_of_def)
  have l: "list_messages fa = Returns (Some recs)" using assms(2) f by simp
  from alert_probe_nonempty[of ps n "PureFAalert_init e a", OF p l assms(3) ne h] False f
  show ?thesis
    by (simp add: count_metric_def PureFAalert_init_def records_of_def)
qed

theorem alert_probe_three_metrics_witness:
  "fst (alert_probe (demo_rest (demo_array (Some demo_alerts) [] [])) (PureFAalert_init ''fa'' ''token'') 0) =
     Inr [\<lparr>name = ''critical'', value_m = PInt 2,
           uom = None, min_m = Some (PInt 0), max_m = None, context_m = None\<rparr>,
          \<lparr>name = ''warning'', value_m = PInt 1,
           uom = None, min_m = Some (PInt 0), max_m = None, context_m = None\<rparr>,
          \<lparr>name = ''info'', value_m = PInt 0,
           uom = None, min_m = Some (PInt 0), max_m = None, context_m = None\<rparr>]
   \<and> fst (alert_main (demo_rest (demo_array (Some []) [] [])) (no_thresholds ''fa'' ''token'') 0) = OK
   \<and> fst (alert_main (demo_rest (demo_array None [] [])) (no_thresholds ''fa'' ''token'') 0) = OK"
  using alert_probe_three_metrics[of "demo_rest (demo_array (Some demo_alerts) [] [])" 0
      "''fa''" "''token''" "demo_array (Some demo_alerts) [] []" "Some demo_alerts" "()"]
    alert_probe_three_metrics[of "demo_rest (demo_array (Some []) [] [])" 0
      "''fa''" "''token''" "demo_array (Some []) [] []" "Some []" "()"]
    alert_probe_three_metrics[of "demo_rest (demo_array None [] [])" 0
      "''fa''" "''token''" "demo_array None [] []" "None" "()"]
  by (simp add: demo_rest_def demo_array_def demo_alerts_def records_of_def severity_count_def)

text \<open>
  Claim C10.  The counters live in the instance, start at zero and are only ever
  incremented: with a fixed non-empty record set, call number \<open>k + 1\<close> of \<open>probe\<close> on
  one instance returns \<open>k + 1\<close> times the per-severity counts, and leaves the
  counters at those values.
\<close>

theorem probe_accumulates:
  assumes "\<forall>i. ps i e a = Returns fa"
    and "list_messages fa = Returns (Some recs)" and "invalidate_cookie fa = Returns u"
    and "recs \<noteq> []"
    and "\<forall>alert\<in>set recs. map_of alert ''current_severity'' \<noteq> None"
  shows "probe_again k ps (PureFAalert_init e a) n =
     (Inr [count_metric ''critical'' (int (Suc k) * severity_count ''critical'' recs),
           count_metric ''warning'' (int (Suc k) * severity_count ''warning'' recs),
           count_metric ''info'' (int (Suc k) * severity_count ''info'' recs)],
      (PureFAalert_init e a)
        \<lparr>info := int (Suc k) * severity_count ''info'' recs,
         warn := int (Suc k) * severity_count ''warning'' recs,
         crit := int (Suc k) * severity_count ''critical'' recs\<rparr>, n + Suc k)"
  using probe_again_general[of ps e a, OF assms, of "PureFAalert_init e a" k n]
  by (simp add: PureFAalert_init_def)


theorem probe_accumulates_witness:
  "probe_again 2 (demo_rest (demo_array (Some demo_alerts) [] [])) (PureFAalert_init ''fa'' ''token'') 0 =
     (Inr [count_metric ''critical'' 6, count_metric ''warning'' 3, count_metric ''info'' 0],
      (PureFAalert_init ''fa'' ''token'')\<lparr>info := 0, warn := 3, crit := 6\<rparr>, 3)"
  using probe_accumulates[of "demo_rest (demo_array (Some demo_alerts) [] [])"
      "''fa''" "''token''" "demo_array (Some demo_alerts) [] []" demo_alerts "()" 2 0]
  by (simp add: demo_rest_def demo_array_def demo_alerts_def severity_count_def)

section \<open>The Occupancy Sampler\<close>

lemma PureFAoccpy_init_simps:
  "PureFAoccpy.endpoint (PureFAoccpy_init e a v p) = e"
  "PureFAoccpy.apitoken (PureFAoccpy_init e a v p) = a"
  "volname (PureFAoccpy_init e a v p) = v"
  "PureFAoccpy.percentage (PureFAoccpy_init e a v p) = p"
  by (simp_all add: PureFAoccpy_init_def)

lemma get_space_array:
  assumes "ps n e a = Returns fa" and "get fa = Returns (x # xs)"
    and "invalidate_cookie fa = Returns u"
  shows "get_space ps (PureFAoccpy_init e a None p) n = (Inr x, Suc n)"
  using assms by (simp add: get_space_def space_request_def PureFAoccpy_init_def)

lemma get_space_volume:
  assumes "ps n e a = Returns fa" and "get_volume fa v = Returns x"
    and "invalidate_cookie fa = Returns u"
  shows "get_space ps (PureFAoccpy_init e a (Some v) p) n = (Inr x, Suc n)"
  using assms by (simp add: get_space_def space_request_def PureFAoccpy_init_def)

lemma trunc_towards_zero:
  fixes x :: rat
  defines "c \<equiv> (if 0 \<le> x then \<lfloor>x\<rfloor> else \<lceil>x\<rceil>)"
  shows "\<bar>of_int c\<bar> \<le> \<bar>x\<bar> \<and> \<bar>x\<bar> < \<bar>of_int c :: rat\<bar> + 1 \<and> (0 \<le> x \<longrightarrow> 0 \<le> c) \<and> (x \<le> 0 \<longrightarrow> c \<le> 0)"
proof (cases "0 \<le> x")
  case True
  then have c: "c = \<lfloor>x\<rfloor>" by (simp add: c_def)
  have c0: "0 \<le> c" unfolding c using True by simp
  have b: "(of_int c :: rat) \<le> x" "x < of_int c + 1" unfolding c by linarith+
  have ac: "\<bar>of_int c :: rat\<bar> = of_int c" using c0 by simp
  have ax: "\<bar>x\<bar> = x" using True by simp
  have "c \<le> 0" if "x \<le> 0"
  proof -
    have "x = 0" using that True by simp
    then show ?thesis unfolding c by simp
  qed
  then show ?thesis unfolding ac ax using b c0 by blast
next
  case False
  then have c: "c = \<lceil>x\<rceil>" by (simp add: c_def)
  have c0: "c \<le> 0" unfolding c using False by (simp add: ceiling_le_iff)
  have b: "x \<le> (of_int c :: rat)" "of_int c < x + 1" unfolding c by linarith+
  have ac: "\<bar>of_int c :: rat\<bar> = - of_int c" using c0 by simp
  have ax: "\<bar>x\<bar> = - x" using False by simp
  have "- (of_int c :: rat) \<le> - x" "- x < - (of_int c :: rat) + 1" using b by linarith+
  then show ?thesis unfolding ac ax using False c0 by blast
qed

lemma int_between:
  fixes c :: int
  assumes "\<bar>of_int c\<bar> \<le> (24691 / 2 :: rat)" and "(24691 / 2 :: rat) < \<bar>of_int c\<bar> + 1" and "0 \<le> c"
  shows "c = 12345"
proof -
  have a: "\<bar>of_int c :: rat\<bar> = of_int c" using assms(3) by simp
  have "(of_int (2 * c) :: rat) \<le> of_int 24691" using assms(1) unfolding a by simp
  then have u: "2 * c \<le> 24691" by (simp only: of_int_le_iff)
  have "(of_int 24691 :: rat) < of_int (2 * c + 2)" using assms(2) unfolding a by simp
  then have l: "24691 < 2 * c + 2" by (simp only: of_int_less_iff)
  show ?thesis using u l by arith
qed

lemma int_between_neg:
  fixes c :: int
  assumes "\<bar>of_int c\<bar> \<le> (5 / 2 :: rat)" and "(5 / 2 :: rat) < \<bar>of_int c\<bar> + 1" and "c \<le> 0"
  shows "c = - 2"
proof -
  have a: "\<bar>of_int c :: rat\<bar> = - of_int c" using assms(3) by simp
  have "(of_int (- 2 * c) :: rat) \<le> of_int 5" using assms(1) unfolding a by simp
  then have u: "- 2 * c \<le> 5" by (simp only: of_int_le_iff)
  have "(of_int 5 :: rat) < of_int (- 2 * c + 2)" using assms(2) unfolding a by simp
  then have l: "5 < - 2 * c + 2" by (simp only: of_int_less_iff)
  show ?thesis using u l by arith
qed

text \<open>
  Claim C7.  Per-volume byte mode (a volume name, the percentage flag not set): for a
  non-falsy volume record, \<open>probe\<close> produces exactly one Metric, named
  \<open><volume> occupancy\<close>, with unit \<open>B\<close>, \<open>min = 0\<close>, no \<open>max\<close>, and the value
  \<open>int(volumes)\<close>: the count itself when it is an int, and a finite float truncated
  towards zero.  Where \<open>int\<close> cannot convert (no \<open>volumes\<close> field, a NaN, an
  infinity) \<open>probe\<close> raises what \<open>int\<close> raises.
\<close>

theorem volume_bytes_metric:
  assumes "ps n e a = Returns fa" and "get_volume fa v = Returns fainfo"
    and "invalidate_cookie fa = Returns u" and "fainfo \<noteq> []"
  shows
  "(\<forall>k. map_of fainfo ''volumes'' = Some (PInt k) \<longrightarrow>
      occpy_probe ps (PureFAoccpy_init e a (Some v) False) n =
        (Inr (Some \<lparr>name = v @ '' occupancy'', value_m = PInt k, uom = Some ''B'',
                    min_m = Some (PInt 0), max_m = None,
                    context_m = Some ''occupancy''\<rparr>), Suc n))
   \<and> (\<forall>x. map_of fainfo ''volumes'' = Some (PFloat (Fin x)) \<longrightarrow>
      (\<exists>c. \<bar>of_int c\<bar> \<le> \<bar>x\<bar> \<and> \<bar>x\<bar> < \<bar>of_int c :: rat\<bar> + 1
         \<and> (0 \<le> x \<longrightarrow> 0 \<le> c) \<and> (x \<le> 0 \<longrightarrow> c \<le> 0)
         \<and> occpy_probe ps (PureFAoccpy_init e a (Some v) False) n =
             (Inr (Some \<lparr>name = v @ '' occupancy'', value_m = PInt c, uom = Some ''B'',
                    min_m = Some (PInt 0), max_m = None,
                    context_m = Some ''occupancy''\<rparr>), Suc n)))
   \<and> (map_of fainfo ''volumes'' = None \<longrightarrow>
      occpy_probe ps (PureFAoccpy_init e a (Some v) False) n = (Inl TypeError, Suc n))
   \<and> (map_of fainfo ''volumes'' = Some (PFloat NaN) \<longrightarrow>
      occpy_probe ps (PureFAoccpy_init e a (Some v) False) n = (Inl ValueError, Suc n))
   \<and> (map_of fainfo ''volumes'' = Some (PFloat PosInf)
        \<or> map_of fainfo ''volumes'' = Some (PFloat NegInf) \<longrightarrow>
      occpy_probe ps (PureFAoccpy_init e a (Some v) False) n = (Inl OverflowError, Suc n))"
proof -
  note g = get_space_volume[of ps n e a fa v fainfo u False, OF assms(1,2,3)]
  have pr: "occpy_probe ps (PureFAoccpy_init e a (Some v) False) n =
      (case py_int (map_of fainfo ''volumes'') of
         Inl err \<Rightarrow> (Inl err, Suc n)
       | Inr c \<Rightarrow> (Inr (Some \<lparr>name = v @ '' occupancy'', value_m = PInt c, uom = Some ''B'',
                    min_m = Some (PInt 0), max_m = None,
                    context_m = Some ''occupancy''\<rparr>), Suc n))"
    using g assms(4) by (simp add: occpy_probe_def PureFAoccpy_init_simps split: sum.splits)
  have i: "\<forall>k. map_of fainfo ''volumes'' = Some (PInt k) \<longrightarrow>
      occpy_probe ps (PureFAoccpy_init e a (Some v) False) n =
        (Inr (Some \<lparr>name = v @ '' occupancy'', value_m = PInt k, uom = Some ''B'',
                    min_m = Some (PInt 0), max_m = None,
                    context_m = Some ''occupancy''\<rparr>), Suc n)"
    unfolding pr by (simp add: py_int_def)
  have f: "\<forall>x. map_of fainfo ''volumes'' = Some (PFloat (Fin x)) \<longrightarrow>
      (\<exists>c. \<bar>of_int c\<bar> \<le> \<bar>x\<bar> \<and> \<bar>x\<bar> < \<bar>of_int c :: rat\<bar> + 1
         \<and> (0 \<le> x \<longrightarrow> 0 \<le> c) \<and> (x \<le> 0 \<longrightarrow> c \<le> 0)
         \<and> occpy_probe ps (PureFAoccpy_init e a (Some v) False) n =
             (Inr (Some \<lparr>name = v @ '' occupancy'', value_m = PInt c, uom = Some ''B'',
                    min_m = Some (PInt 0), max_m = None,
                    context_m = Some ''occupancy''\<rparr>), Suc n))"
  proof (intro allI impI)
    fix x assume h: "map_of fainfo ''volumes'' = Some (PFloat (Fin x))"
    let ?c = "if 0 \<le> x then \<lfloor>x\<rfloor> else \<lceil>x\<rceil>"
    have "occpy_probe ps (PureFAoccpy_init e a (Some v) False) n =
             (Inr (Some \<lparr>name = v @ '' occupancy'', value_m = PInt ?c, uom = Some ''B'',
                    min_m = Some (PInt 0), max_m = None,
                    context_m = Some ''occupancy''\<rparr>), Suc n)"
      unfolding pr by (simp add: py_int_def h)
    with trunc_towards_zero[of x]
    show "\<exists>c. \<bar>of_int c\<bar> \<le> \<bar>x\<bar> \<and> \<bar>x\<bar> < \<bar>of_int c :: rat\<bar> + 1
         \<and> (0 \<le> x \<longrightarrow> 0 \<le> c) \<and> (x \<le> 0 \<longrightarrow> c \<le> 0)
         \<and> occpy_probe ps (PureFAoccpy_init e a (Some v) False) n =
             (Inr (Some \<lparr>name = v @ '' occupancy'', value_m = PInt c, uom = Some ''B'',
                    min_m = Some (PInt 0), max_m = None,
                    context_m = Some ''occupancy''\<rparr>), Suc n)"
      by (intro exI[of _ ?c]) simp
  qed
  have e: "map_of fainfo ''volumes'' = None \<longrightarrow>
      occpy_probe ps (PureFAoccpy_init e a (Some v) False) n = (Inl TypeError, Suc n)"
    "map_of fainfo ''volumes'' = Some (PFloat NaN) \<longrightarrow>
      occpy_probe ps (PureFAoccpy_init e a (Some v) False) n = (Inl ValueError, Suc n)"
    "map_of fainfo ''volumes'' = Some (PFloat PosInf)
        \<or> map_of fainfo ''volumes'' = Some (PFloat NegInf) \<longrightarrow>
      occpy_probe ps (PureFAoccpy_init e a (Some v) False) n = (Inl OverflowError, Suc n)"
    unfolding pr by (auto simp: py_int_def)
  show ?thesis by (intro conjI i f e)
qed

theorem volume_bytes_metric_witness:
  "occpy_probe (demo_rest (demo_array None [] [(''volumes'', PInt 12345)]))
      (PureFAoccpy_init ''fa'' ''token'' (Some ''vol1'') False) 0 =
     (Inr (Some \<lparr>name = ''vol1 occupancy'', value_m = PInt 12345, uom = Some ''B'',
                    min_m = Some (PInt 0), max_m = None,
                    context_m = Some ''occupancy''\<rparr>), 1)
   \<and> occpy_probe (demo_rest (demo_array None [] [(''volumes'', PFloat (Fin (24691 / 2)))]))
      (PureFAoccpy_init ''fa'' ''token'' (Some ''vol1'') False) 0 =
     (Inr (Some \<lparr>name = ''vol1 occupancy'', value_m = PInt 12345, uom = Some ''B'',
                    min_m = Some (PInt 0), max_m = None,
                    context_m = Some ''occupancy''\<rparr>), 1)
   \<and> occpy_probe (demo_rest (demo_array None [] [(''volumes'', PFloat (Fin (- 5 / 2)))]))
      (PureFAoccpy_init ''fa'' ''token'' (Some ''vol1'') False) 0 =
     (Inr (Some \<lparr>name = ''vol1 occupancy'', value_m = PInt (- 2), uom = Some ''B'',
                    min_m = Some (PInt 0), max_m = None,
                    context_m = Some ''occupancy''\<rparr>), 1)
   \<and> occpy_probe (demo_rest (demo_array None [] [(''total'', PInt 1)]))
      (PureFAoccpy_init ''fa'' ''token'' (Some ''vol1'') False) 0 = (Inl TypeError, 1)
   \<and> occpy_probe (demo_rest (demo_array None [] [(''volumes'', PFloat NaN)]))
      (PureFAoccpy_init ''fa'' ''token'' (Some ''vol1'') False) 0 = (Inl ValueError, 1)"
proof -
  have s: "demo_rest fa 0 ''fa'' ''token'' = Returns fa" for fa
    by (simp add: demo_rest_def)
  have gv: "get_volume (demo_array None [] rec) ''vol1'' = Returns rec"
    "invalidate_cookie (demo_array None [] rec) = Returns ()" for rec
    by (simp_all add: demo_array_def)
  have c1: "occpy_probe (demo_rest (demo_array None [] [(''volumes'', PInt 12345)]))
      (PureFAoccpy_init ''fa'' ''token'' (Some ''vol1'') False) 0 = (Inr (Some \<lparr>name = ''vol1 occupancy'', value_m = PInt 12345, uom = Some ''B'',
                    min_m = Some (PInt 0), max_m = None,
                    context_m = Some ''occupancy''\<rparr>), 1)"
  proof -
    let ?rec = "[(''volumes'', PInt 12345)]"
    have ne: "?rec \<noteq> []" by simp
    note t = volume_bytes_metric[of "demo_rest (demo_array None [] ?rec)" 0 "''fa''" "''token''"
        "demo_array None [] ?rec" "''vol1''" ?rec "()", OF s gv(1) gv(2) ne]
    have m: "map_of ?rec ''volumes'' = Some (PInt 12345)" by simp
    from t[THEN conjunct1, rule_format, OF m] show ?thesis by simp
  qed
  have c2: "occpy_probe (demo_rest (demo_array None [] [(''volumes'', PFloat (Fin (24691 / 2)))]))
      (PureFAoccpy_init ''fa'' ''token'' (Some ''vol1'') False) 0 = (Inr (Some \<lparr>name = ''vol1 occupancy'', value_m = PInt 12345, uom = Some ''B'',
                    min_m = Some (PInt 0), max_m = None,
                    context_m = Some ''occupancy''\<rparr>), 1)"
  proof -
    let ?rec = "[(''volumes'', PFloat (Fin (24691 / 2)))]"
    have ne: "?rec \<noteq> []" by simp
    note t = volume_bytes_metric[of "demo_rest (demo_array None [] ?rec)" 0 "''fa''" "''token''"
        "demo_array None [] ?rec" "''vol1''" ?rec "()", OF s gv(1) gv(2) ne]
    have m: "map_of ?rec ''volumes'' = Some (PFloat (Fin (24691 / 2)))" by simp
    from t[THEN conjunct2, THEN conjunct1, rule_format, OF m]
    obtain c where b1: "\<bar>of_int c\<bar> \<le> \<bar>24691 / 2 :: rat\<bar>"
      and b2: "\<bar>24691 / 2 :: rat\<bar> < \<bar>of_int c\<bar> + 1"
      and b3: "(0::rat) \<le> 24691 / 2 \<longrightarrow> 0 \<le> c" and b4: "(24691 / 2 :: rat) \<le> 0 \<longrightarrow> c \<le> 0"
      and p: "occpy_probe (demo_rest (demo_array None [] ?rec))
        (PureFAoccpy_init ''fa'' ''token'' (Some ''vol1'') False) 0 =
          (Inr (Some \<lparr>name = ''vol1'' @ '' occupancy'', value_m = PInt c, uom = Some ''B'',
                    min_m = Some (PInt 0), max_m = None,
                    context_m = Some ''occupancy''\<rparr>), Suc 0)"
      by (elim exE conjE)
    have "\<bar>of_int c\<bar> \<le> (24691 / 2 :: rat)" "(24691 / 2 :: rat) < \<bar>of_int c\<bar> + 1" "0 \<le> c"
      using b1 b2 b3 by simp_all
    then have "c = 12345" by (rule int_between)
    then show ?thesis using p by simp
  qed
  have c3: "occpy_probe (demo_rest (demo_array None [] [(''volumes'', PFloat (Fin (- 5 / 2)))]))
      (PureFAoccpy_init ''fa'' ''token'' (Some ''vol1'') False) 0 = (Inr (Some \<lparr>name = ''vol1 occupancy'', value_m = PInt (- 2), uom = Some ''B'',
                    min_m = Some (PInt 0), max_m = None,
                    context_m = Some ''occupancy''\<rparr>), 1)"
  proof -
    let ?rec = "[(''volumes'', PFloat (Fin (- 5 / 2)))]"
    have ne: "?rec \<noteq> []" by simp
    note t = volume_bytes_metric[of "demo_rest (demo_array None [] ?rec)" 0 "''fa''" "''token''"
        "demo_array None [] ?rec" "''vol1''" ?rec "()", OF s gv(1) gv(2) ne]
    have m: "map_of ?rec ''volumes'' = Some (PFloat (Fin (- 5 / 2)))" by simp
    from t[THEN conjunct2, THEN conjunct1, rule_format, OF m]
    obtain c where b1: "\<bar>of_int c\<bar> \<le> \<bar>- 5 / 2 :: rat\<bar>"
      and b2: "\<bar>- 5 / 2 :: rat\<bar> < \<bar>of_int c\<bar> + 1"
      and b3: "(0::rat) \<le> - 5 / 2 \<longrightarrow> 0 \<le> c" and b4: "(- 5 / 2 :: rat) \<le> 0 \<longrightarrow> c \<le> 0"
      and p: "occpy_probe (demo_rest (demo_array None [] ?rec))
        (PureFAoccpy_init ''fa'' ''token'' (Some ''vol1'') False) 0 =
          (Inr (Some \<lparr>name = ''vol1'' @ '' occupancy'', value_m = PInt c, uom = Some ''B'',
                    min_m = Some (PInt 0), max_m = None,
                    context_m = Some ''occupancy''\<rparr>), Suc 0)"
      by (elim exE conjE)
    have "\<bar>of_int c\<bar> \<le> (5 / 2 :: rat)" "(5 / 2 :: rat) < \<bar>of_int c\<bar> + 1" "c \<le> 0"
      using b1 b2 b4 by simp_all
    then have "c = - 2" by (rule int_between_neg)
    then show ?thesis using p by simp
  qed
  have c4: "occpy_probe (demo_rest (demo_array None [] [(''total'', PInt 1)]))
      (PureFAoccpy_init ''fa'' ''token'' (Some ''vol1'') False) 0 = (Inl TypeError, 1)"
  proof -
    let ?rec = "[(''total'', PInt 1)]"
    have ne: "?rec \<noteq> []" by simp
    note t = volume_bytes_metric[of "demo_rest (demo_array None [] ?rec)" 0 "''fa''" "''token''"
        "demo_array None [] ?rec" "''vol1''" ?rec "()", OF s gv(1) gv(2) ne]
    have m: "map_of ?rec ''volumes'' = None" by simp
    from t[THEN conjunct2, THEN conjunct2, THEN conjunct1, rule_format, OF m]
    show ?thesis by simp
  qed
  have c5: "occpy_probe (demo_rest (demo_array None [] [(''volumes'', PFloat NaN)]))
      (PureFAoccpy_init ''fa'' ''token'' (Some ''vol1'') False) 0 = (Inl ValueError, 1)"
  proof -
    let ?rec = "[(''volumes'', PFloat NaN)]"
    have ne: "?rec \<noteq> []" by simp
    note t = volume_bytes_metric[of "demo_rest (demo_array None [] ?rec)" 0 "''fa''" "''token''"
        "demo_array None [] ?rec" "''vol1''" ?rec "()", OF s gv(1) gv(2) ne]
    have m: "map_of ?rec ''volumes'' = Some (PFloat NaN)" by simp
    from t[THEN conjunct2, THEN conjunct2, THEN conjunct2, THEN conjunct1, rule_format, OF m]
    show ?thesis by simp
  qed
  show ?thesis by (intro conjI c1 c2 c3 c4 c5)
qed

text \<open>
  Claim C9.  Without a volume name the percentage flag has no effect: two runs that
  differ only in the flag return the same result of \<open>probe\<close> (the same Metric, error
  or empty result) and the same overall verdict.
\<close>

theorem percentage_flag_ignored:
  "occpy_probe ps (PureFAoccpy_init e a None p) n =
   occpy_probe ps (PureFAoccpy_init e a None q) n
   \<and> occpy_main ps \<lparr>occpy_args.endpoint = e, apitoken = a, vol = None, warning = w,
                     critical = c, percentage = p\<rparr> n =
     occpy_main ps \<lparr>occpy_args.endpoint = e, apitoken = a, vol = None, warning = w,
                     critical = c, percentage = q\<rparr> n"
proof -
  have g: "get_space ps (PureFAoccpy_init e a None p) n =
           get_space ps (PureFAoccpy_init e a None q) n"
    by (simp add: get_space_def PureFAoccpy_init_simps split: call.splits)
  have "occpy_probe ps (PureFAoccpy_init e a None p) n =
        occpy_probe ps (PureFAoccpy_init e a None q) n"
    unfolding occpy_probe_def g by (simp add: PureFAoccpy_init_simps split: prod.splits sum.splits)
  then show ?thesis by (simp add: occpy_main_def split: sum.splits)
qed

theorem percentage_flag_ignored_witness:
  "occpy_probe (demo_rest (demo_array None [ [(''total'', PInt 50), (''capacity'', PInt 200)] ] []))
      (PureFAoccpy_init ''fa'' ''token'' None True) 0 =
   occpy_probe (demo_rest (demo_array None [ [(''total'', PInt 50), (''capacity'', PInt 200)] ] []))
      (PureFAoccpy_init ''fa'' ''token'' None False) 0"
  using percentage_flag_ignored[of
      "demo_rest (demo_array None [ [(''total'', PInt 50), (''capacity'', PInt 200)] ] [])"
      "''fa''" "''token''" True 0 False "[]" "[]"]
  by simp

section \<open>Failures of the data source\<close>

lemma get_alerts_error:
  assumes "session_error (ps n (PureFAalert.endpoint self) (PureFAalert.apitoken self))
             list_messages = Some err"
  shows "get_alerts ps self n = (Inl (rest_error err), Suc n)"
  using assms by (auto simp: session_error_def get_alerts_def split: call.splits)

lemma get_alerts_success:
  assumes "session_error (ps n (PureFAalert.endpoint self) (PureFAalert.apitoken self))
             list_messages = None"
  shows "\<exists>fainfo. get_alerts ps self n = (Inr fainfo, Suc n)"
  using assms by (auto simp: session_error_def get_alerts_def split: call.splits)

lemma probe_loop_no_CheckError: "fst (probe_loop recs self) \<noteq> Some (CheckError msg)"
  by (induction recs arbitrary: self) (auto split: option.splits)

lemma alert_probe_error:
  assumes "session_error (ps n (PureFAalert.endpoint self) (PureFAalert.apitoken self))
             list_messages = Some err"
  shows "alert_probe ps self n = (Inl (rest_error err), self, Suc n)"
  using get_alerts_error[of ps n self, OF assms] by (simp add: alert_probe_def)

lemma alert_probe_success:
  assumes "session_error (ps n (PureFAalert.endpoint self) (PureFAalert.apitoken self))
             list_messages = None"
  shows "fst (alert_probe ps self n) \<noteq> Inl (CheckError msg)"
proof -
  obtain fainfo where g: "get_alerts ps self n = (Inr fainfo, Suc n)"
    using get_alerts_success[of ps n self, OF assms] by blast
  show ?thesis
  proof (cases fainfo)
    case None
    then show ?thesis using g by (simp add: alert_probe_def)
  next
    case (Some recs)
    show ?thesis
    proof (cases recs)
      case Nil
      then show ?thesis using g Some by (simp add: alert_probe_def)
    next
      case (Cons r rs)
      obtain x s' where pl: "probe_loop (r # rs) self = (x, s')"
        by (cases "probe_loop (r # rs) self")
      have "x \<noteq> Some (CheckError msg)"
        using probe_loop_no_CheckError[of "r # rs" self msg] pl by simp
      then show ?thesis
        using g Some Cons pl by (cases x) (simp_all add: alert_probe_def)
    qed
  qed
qed

lemma get_space_error:
  assumes "session_error (ps n (PureFAoccpy.endpoint self) (PureFAoccpy.apitoken self))
             (space_request (volname self)) = Some err"
  shows "get_space ps self n = (Inl (rest_error err), Suc n)"
  using assms by (auto simp: session_error_def get_space_def split: call.splits)

lemma get_space_success:
  assumes "session_error (ps n (PureFAoccpy.endpoint self) (PureFAoccpy.apitoken self))
             (space_request (volname self)) = None"
  shows "\<exists>fainfo. get_space ps self n = (Inr fainfo, Suc n)"
  using assms by (auto simp: session_error_def get_space_def split: call.splits)

lemma py_float_no_CheckError: "py_float x \<noteq> Inl (CheckError msg)"
  by (auto simp: py_float_def split: option.splits pynum.splits pyfloat.splits)

lemma py_int_no_CheckError: "py_int x \<noteq> Inl (CheckError msg)"
  by (auto simp: py_int_def split: option.splits pynum.splits pyfloat.splits)

lemma truediv_no_CheckError: "truediv x y \<noteq> Inl (CheckError msg)"
  by (auto simp: truediv_def)

lemma py_round_no_CheckError: "py_round x d \<noteq> Inl (CheckError msg)"
  by (auto simp: py_round_def split: pyfloat.splits)

lemma occupancy_pct_no_CheckError: "occupancy_pct x y \<noteq> Inl (CheckError msg)"
  using py_float_no_CheckError[of x msg] py_float_no_CheckError[of y msg]
    truediv_no_CheckError[of _ _ msg] py_round_no_CheckError[of _ 2 msg]
  by (auto simp: occupancy_pct_def split: sum.splits)

lemma occpy_probe_error:
  assumes "session_error (ps n (PureFAoccpy.endpoint self) (PureFAoccpy.apitoken self))
             (space_request (volname self)) = Some err"
  shows "occpy_probe ps self n = (Inl (rest_error err), Suc n)"
  using get_space_error[of ps n self, OF assms] by (simp add: occpy_probe_def)

lemma occpy_probe_success:
  assumes "session_error (ps n (PureFAoccpy.endpoint self) (PureFAoccpy.apitoken self))
             (space_request (volname self)) = None"
  shows "fst (occpy_probe ps self n) \<noteq> Inl (CheckError msg)"
proof -
  obtain fainfo where g: "get_space ps self n = (Inr fainfo, Suc n)"
    using get_space_success[of ps n self, OF assms] by blast
  show ?thesis
    using g occupancy_pct_no_CheckError[of _ _ msg] py_int_no_CheckError[of _ msg]
    by (auto simp: occpy_probe_def split: option.splits sum.splits)
qed


lemma check_Inl: "check contexts (Inl e) = UNKNOWN"
  by (simp add: check_def)

text \<open>
  Claim C8.  Whatever is raised while a Metric Source fetches (opening the session, the
  request, invalidating the cookie) is re-raised by \<open>probe\<close> as a \<open>CheckError\<close> whose
  message contains the text of the underlying exception, and the overall verdict is
  \<open>UNKNOWN\<close>.  Exactly one session has been opened then, whatever later sessions
  would answer, and no Metric is returned.  When the three calls return, \<open>probe\<close>
  raises no \<open>CheckError\<close>.
\<close>

theorem rest_errors_fatal:
  fixes aargs :: alert_args and oargs :: occpy_args
  shows
  "(session_error (ps n (alert_args.endpoint aargs) (alert_args.apitoken aargs))
       list_messages = Some err \<longrightarrow>
      alert_probe ps
        (PureFAalert_init (alert_args.endpoint aargs) (alert_args.apitoken aargs)) n =
        (Inl (CheckError (''FA REST call returned '' @ [CHR 0x22] @ err @ [CHR 0x22])),
         PureFAalert_init (alert_args.endpoint aargs) (alert_args.apitoken aargs), Suc n)
      \<and> fst (alert_main ps aargs n) = UNKNOWN)
   \<and> (session_error (ps n (alert_args.endpoint aargs) (alert_args.apitoken aargs))
       list_messages = None \<longrightarrow>
      fst (alert_probe ps
        (PureFAalert_init (alert_args.endpoint aargs) (alert_args.apitoken aargs)) n)
        \<noteq> Inl (CheckError msg))
   \<and> (session_error (ps n (occpy_args.endpoint oargs) (occpy_args.apitoken oargs))
       (space_request (vol oargs)) = Some err \<longrightarrow>
      occpy_probe ps
        (PureFAoccpy_init (occpy_args.endpoint oargs) (occpy_args.apitoken oargs)
           (vol oargs) (occpy_args.percentage oargs)) n =
        (Inl (CheckError (''FA REST call returned '' @ [CHR 0x22] @ err @ [CHR 0x22])),
         Suc n)
      \<and> fst (occpy_main ps oargs n) = UNKNOWN)
   \<and> (session_error (ps n (occpy_args.endpoint oargs) (occpy_args.apitoken oargs))
       (space_request (vol oargs)) = None \<longrightarrow>
      fst (occpy_probe ps
        (PureFAoccpy_init (occpy_args.endpoint oargs) (occpy_args.apitoken oargs)
           (vol oargs) (occpy_args.percentage oargs)) n)
        \<noteq> Inl (CheckError msg))"
proof -
  let ?ai = "PureFAalert_init (alert_args.endpoint aargs) (alert_args.apitoken aargs)"
  let ?oi = "PureFAoccpy_init (occpy_args.endpoint oargs) (occpy_args.apitoken oargs)
           (vol oargs) (occpy_args.percentage oargs)"
  have ai: "PureFAalert.endpoint ?ai = alert_args.endpoint aargs"
    "PureFAalert.apitoken ?ai = alert_args.apitoken aargs"
    by (simp_all add: PureFAalert_init_def)
  have oi: "PureFAoccpy.endpoint ?oi = occpy_args.endpoint oargs"
    "PureFAoccpy.apitoken ?oi = occpy_args.apitoken oargs" "volname ?oi = vol oargs"
    by (simp_all add: PureFAoccpy_init_def)
  have a1: "alert_probe ps ?ai n = (Inl (rest_error err), ?ai, Suc n)"
    if "session_error (ps n (alert_args.endpoint aargs) (alert_args.apitoken aargs))
       list_messages = Some err"
    using alert_probe_error[of ps n ?ai err] that ai by simp
  have a2: "fst (alert_main ps aargs n) = UNKNOWN"
    if "session_error (ps n (alert_args.endpoint aargs) (alert_args.apitoken aargs))
       list_messages = Some err"
    using a1[OF that] by (simp add: alert_main_def check_Inl split: sum.splits)
  have a3: "fst (alert_probe ps ?ai n) \<noteq> Inl (CheckError msg)"
    if "session_error (ps n (alert_args.endpoint aargs) (alert_args.apitoken aargs))
       list_messages = None"
    using alert_probe_success[of ps n ?ai msg] that ai by simp
  have o1: "occpy_probe ps ?oi n = (Inl (rest_error err), Suc n)"
    if "session_error (ps n (occpy_args.endpoint oargs) (occpy_args.apitoken oargs))
       (space_request (vol oargs)) = Some err"
    using occpy_probe_error[of ps n ?oi err] that oi by simp
  have o2: "fst (occpy_main ps oargs n) = UNKNOWN"
    if "session_error (ps n (occpy_args.endpoint oargs) (occpy_args.apitoken oargs))
       (space_request (vol oargs)) = Some err"
    using o1[OF that] by (simp add: occpy_main_def check_Inl split: sum.splits)
  have o3: "fst (occpy_probe ps ?oi n) \<noteq> Inl (CheckError msg)"
    if "session_error (ps n (occpy_args.endpoint oargs) (occpy_args.apitoken oargs))
       (space_request (vol oargs)) = None"
    using occpy_probe_success[of ps n ?oi msg] that oi by simp
  show ?thesis
    using a1 a2 a3 o1 o2 o3 by (simp add: rest_error_def)
qed

theorem rest_errors_fatal_witness:
  "alert_probe (demo_flaky ''timed out'' (demo_array (Some demo_alerts) [] []))
      (PureFAalert_init ''fa'' ''token'') 0 =
     (Inl (CheckError (''FA REST call returned '' @ [CHR 0x22] @ ''timed out'' @ [CHR 0x22])),
      PureFAalert_init ''fa'' ''token'', 1)
   \<and> fst (alert_main (demo_flaky ''timed out'' (demo_array (Some demo_alerts) [] []))
        (no_thresholds ''fa'' ''token'') 0) = UNKNOWN
   \<and> fst (alert_probe (demo_rest (demo_array (Some demo_alerts) [] []))
        (PureFAalert_init ''fa'' ''token'') 0) \<noteq> Inl (CheckError [])
   \<and> occpy_probe (demo_rest (demo_array None [] []))
      (PureFAoccpy_init ''fa'' ''token'' None False) 0 =
     (Inl (CheckError (''FA REST call returned '' @ [CHR 0x22] @ ''list index out of range''
                         @ [CHR 0x22])), 1)"
proof -
  let ?down = "demo_flaky ''timed out'' (demo_array (Some demo_alerts) [] [])"
  let ?up = "demo_rest (demo_array (Some demo_alerts) [] [])"
  let ?empty = "demo_rest (demo_array None [] [])"
  let ?oargs = "\<lparr>occpy_args.endpoint = ''fa'', apitoken = ''token'', vol = None,
        warning = [], critical = [], percentage = False\<rparr>"
  have ea: "alert_args.endpoint (no_thresholds ''fa'' ''token'') = ''fa''"
    "alert_args.apitoken (no_thresholds ''fa'' ''token'') = ''token''"
    by (simp_all add: no_thresholds_def)
  have h1: "session_error (?down 0 ''fa'' ''token'') list_messages = Some ''timed out''"
    by (simp add: demo_flaky_def session_error_def)
  have h2: "session_error (?up 0 ''fa'' ''token'') list_messages = None"
    by (simp add: demo_rest_def demo_array_def session_error_def)
  have h3: "session_error (?empty 0 ''fa'' ''token'') (space_request None) =
      Some ''list index out of range''"
    by (simp add: demo_rest_def demo_array_def session_error_def space_request_def)
  show ?thesis
    using rest_errors_fatal[of ?down 0 "no_thresholds ''fa'' ''token''" "''timed out''" "[]"
        ?oargs]
      rest_errors_fatal[of ?up 0 "no_thresholds ''fa'' ''token''" "''timed out''" "[]" ?oargs]
      rest_errors_fatal[of ?empty 0 "no_thresholds ''fa'' ''token''"
        "''list index out of range''" "[]" ?oargs]
      h1 h2 h3
    by (simp add: ea)
qed

section \<open>The Verdict Aggregator\<close>

lemma severity_inj: "severity a = severity b \<Longrightarrow> a = b"
  by (cases a; cases b) (simp_all add: severity_def)

lemma foldl_worse_mem: "foldl worse v rest \<in> set (v # rest)"
proof (induction rest arbitrary: v)
  case Nil
  show ?case by simp
next
  case (Cons x xs)
  have "foldl worse (worse v x) xs \<in> set (worse v x # xs)" by (rule Cons.IH)
  moreover have "worse v x = v \<or> worse v x = x" by (simp add: worse_def)
  ultimately show ?case by auto
qed

lemma foldl_worse_start: "severity v \<le> severity (foldl worse v rest)"
proof (induction rest arbitrary: v)
  case Nil
  show ?case by simp
next
  case (Cons x xs)
  have "severity v \<le> severity (worse v x)" by (simp add: worse_def)
  also have "\<dots> \<le> severity (foldl worse (worse v x) xs)" by (rule Cons.IH)
  finally show ?case by simp
qed

lemma foldl_worse_ge: "x \<in> set (v # rest) \<Longrightarrow> severity x \<le> severity (foldl worse v rest)"
proof (induction rest arbitrary: v)
  case Nil
  then show ?case by simp
next
  case (Cons y ys)
  have w: "severity v \<le> severity (worse v y)" "severity y \<le> severity (worse v y)"
    by (simp_all add: worse_def)
  from Cons.prems consider "x = v" | "x = y" | "x \<in> set ys" by auto
  then show ?case
  proof cases
    case 1
    then show ?thesis using w(1) foldl_worse_start[of "worse v y" ys] by simp
  next
    case 2
    then show ?thesis using w(2) foldl_worse_start[of "worse v y" ys] by simp
  next
    case 3
    then show ?thesis using Cons.IH[of "worse v y"] by simp
  qed
qed

lemma aggregate_mem: "vs \<noteq> [] \<Longrightarrow> aggregate vs \<in> set vs"
  using foldl_worse_mem by (cases vs) (simp_all add: aggregate_def)

lemma aggregate_ge: "x \<in> set vs \<Longrightarrow> severity x \<le> severity (aggregate vs)"
  using foldl_worse_ge by (cases vs) (simp_all add: aggregate_def)

lemma aggregate_set: "set vs = set ws \<Longrightarrow> aggregate vs = aggregate ws"
proof (cases "vs = []")
  case True
  assume "set vs = set ws"
  then show ?thesis using True by simp
next
  case False
  assume s: "set vs = set ws"
  then have w: "ws \<noteq> []" using False by auto
  have "severity (aggregate vs) \<le> severity (aggregate ws)"
    using aggregate_mem[OF False] s aggregate_ge[of "aggregate vs" ws] by simp
  moreover have "severity (aggregate ws) \<le> severity (aggregate vs)"
    using aggregate_mem[OF w] s aggregate_ge[of "aggregate ws" vs] by simp
  ultimately show ?thesis using severity_inj by simp
qed

lemma aggregate_UNKNOWN: "UNKNOWN \<in> set vs \<Longrightarrow> aggregate vs = UNKNOWN"
proof -
  assume "UNKNOWN \<in> set vs"
  then have "severity UNKNOWN \<le> severity (aggregate vs)" by (rule aggregate_ge)
  then show ?thesis by (cases "aggregate vs") (simp_all add: severity_def)
qed

lemma occpy_probe_falsy:
  assumes "fst (get_space ps self n) = Inr []"
  shows "fst (occpy_probe ps self n) = Inr None"
  using assms by (cases "get_space ps self n") (simp add: occpy_probe_def)

lemma occpy_main_falsy:
  assumes "fst (get_space ps
      (PureFAoccpy_init (occpy_args.endpoint oargs) (occpy_args.apitoken oargs) (vol oargs)
         (occpy_args.percentage oargs)) n) = Inr []"
  shows "fst (occpy_main ps oargs n) = UNKNOWN"
proof -
  let ?self = "PureFAoccpy_init (occpy_args.endpoint oargs) (occpy_args.apitoken oargs)
     (vol oargs) (occpy_args.percentage oargs)"
  obtain r n' where p: "occpy_probe ps ?self n = (r, n')" by (cases "occpy_probe ps ?self n")
  have "r = Inr None" using occpy_probe_falsy[of ps ?self n, OF assms] p by simp
  then show ?thesis
    using p by (simp add: occpy_main_def check_def metrics_of_def aggregate_def split: sum.splits)
qed

text \<open>
  Claim C1.  The overall verdict of a non-empty list of verdicts is one of them and no
  other is more severe, in the order \<open>OK < WARNING < CRITICAL\<close> with \<open>UNKNOWN\<close> above
  all; it is \<open>UNKNOWN\<close> as soon as one verdict is \<open>UNKNOWN\<close> and when there is no
  verdict; it is the same for two lists with the same multiset of verdicts.  When the
  array returns a falsy space record, \<open>probe\<close> of the Occupancy Sampler returns no
  Metric and the overall verdict is \<open>UNKNOWN\<close>.
\<close>

theorem aggregate_is_maximum:
  "severity OK < severity WARNING \<and> severity WARNING < severity CRITICAL
   \<and> (vs \<noteq> [] \<longrightarrow>
        aggregate vs \<in> set vs \<and> (\<forall>v\<in>set vs. severity v \<le> severity (aggregate vs)))
   \<and> (UNKNOWN \<in> set vs \<longrightarrow> aggregate vs = UNKNOWN)
   \<and> aggregate [] = UNKNOWN
   \<and> (mset vs = mset ws \<longrightarrow> aggregate vs = aggregate ws)
   \<and> (fst (get_space ps
          (PureFAoccpy_init (occpy_args.endpoint oargs) (occpy_args.apitoken oargs) (vol oargs)
             (occpy_args.percentage oargs)) n) = Inr [] \<longrightarrow>
        fst (occpy_probe ps
          (PureFAoccpy_init (occpy_args.endpoint oargs) (occpy_args.apitoken oargs) (vol oargs)
             (occpy_args.percentage oargs)) n) = Inr None
        \<and> fst (occpy_main ps oargs n) = UNKNOWN)"
proof -
  have "mset vs = mset ws \<longrightarrow> aggregate vs = aggregate ws"
    using aggregate_set[of vs ws] mset_eq_setD[of vs ws] by blast
  moreover have "aggregate [] = UNKNOWN" by (simp add: aggregate_def)
  moreover have "severity OK < severity WARNING \<and> severity WARNING < severity CRITICAL"
    by (simp add: severity_def)
  ultimately show ?thesis
    using aggregate_mem[of vs] aggregate_ge[of _ vs] aggregate_UNKNOWN[of vs]
      occpy_probe_falsy[of ps _ n] occpy_main_falsy[of ps oargs n]
    by blast
qed

theorem aggregate_is_maximum_witness:
  "aggregate [OK, CRITICAL, WARNING] = CRITICAL
   \<and> aggregate [WARNING, OK, CRITICAL] = aggregate [OK, CRITICAL, WARNING]
   \<and> aggregate [OK, UNKNOWN, CRITICAL] = UNKNOWN
   \<and> fst (occpy_main (demo_rest (demo_array None [ [] ] []))
        \<lparr>occpy_args.endpoint = ''fa'', apitoken = ''token'', vol = None, warning = [],
         critical = [], percentage = False\<rparr> 0) = UNKNOWN"
proof -
  let ?oargs = "\<lparr>occpy_args.endpoint = ''fa'', apitoken = ''token'', vol = None,
        warning = [], critical = [], percentage = False\<rparr>"
  let ?ps = "demo_rest (demo_array None [ [] ] [])"
  have g: "fst (get_space ?ps (PureFAoccpy_init (occpy_args.endpoint ?oargs)
      (occpy_args.apitoken ?oargs) (vol ?oargs) (occpy_args.percentage ?oargs)) 0) = Inr []"
    by (simp add: get_space_def space_request_def demo_rest_def demo_array_def
        PureFAoccpy_init_def)
  have m: "mset [WARNING, OK, CRITICAL] = mset [OK, CRITICAL, WARNING]" by simp
  have u: "UNKNOWN \<in> set [OK, UNKNOWN, CRITICAL]" by simp
  have c: "aggregate [OK, CRITICAL, WARNING] = CRITICAL"
    using aggregate_is_maximum[of "[OK, CRITICAL, WARNING]" "[]" ?ps ?oargs 0]
    by (auto simp: severity_def)
  show ?thesis
    using c g m u
      aggregate_is_maximum[of "[WARNING, OK, CRITICAL]" "[OK, CRITICAL, WARNING]" ?ps ?oargs 0]
      aggregate_is_maximum[of "[OK, UNKNOWN, CRITICAL]" "[]" ?ps ?oargs 0]
    by blast
qed



section \<open>The Threshold Evaluator\<close>

lemma ScalarContext_new_Inr:
  "ScalarContext_new nm w c = Inr ctx \<Longrightarrow>
   \<exists>wr cr. parse_opt w = Inr wr \<and> parse_opt c = Inr cr
     \<and> ctx = \<lparr>ctx_name = nm, warning = wr, critical = cr\<rparr>"
  by (auto simp: ScalarContext_new_def split: sum.splits)

lemma alert_contexts_Inr:
  assumes "alert_contexts args = Inr contexts"
  shows "\<exists>wc cc ww cw wi ci.
     parse_opt (warning_crit args) = Inr wc \<and> parse_opt (critical_crit args) = Inr cc
   \<and> parse_opt (warning_warn args) = Inr ww \<and> parse_opt (critical_warn args) = Inr cw
   \<and> parse_opt (warning_info args) = Inr wi \<and> parse_opt (critical_info args) = Inr ci
   \<and> contexts = [\<lparr>ctx_name = ''critical'', warning = wc, critical = cc\<rparr>,
                   \<lparr>ctx_name = ''warning'', warning = ww, critical = cw\<rparr>,
                   \<lparr>ctx_name = ''info'', warning = wi, critical = ci\<rparr>]"
proof -
  from assms obtain c1 c2 c3 where
    c1: "ScalarContext_new ''critical'' (warning_crit args) (critical_crit args) = Inr c1" and
    c2: "ScalarContext_new ''warning'' (warning_warn args) (critical_warn args) = Inr c2" and
    c3: "ScalarContext_new ''info'' (warning_info args) (critical_info args) = Inr c3" and
    cs: "contexts = [c1, c2, c3]"
    by (auto simp: alert_contexts_def split: sum.splits)
  show ?thesis
    using ScalarContext_new_Inr[OF c1] ScalarContext_new_Inr[OF c2]
      ScalarContext_new_Inr[OF c3] cs
    by auto
qed

text \<open>
  Claim C5.  The Threshold Evaluator tests critical first: the verdict is \<open>CRITICAL\<close>
  exactly when the critical range does not accept the value, \<open>WARNING\<close> exactly when
  the critical range accepts it and the warning range does not, \<open>OK\<close> otherwise, and
  never \<open>UNKNOWN\<close>; an absent range accepts everything.  Being a function of the
  Metric and the two ranges, it gives the same verdict each time.  In the alert check
  each of the three Metrics is scored against its own pair of expressions.
\<close>

theorem evaluate_critical_first:
  "(evaluate m w c = CRITICAL \<longleftrightarrow> \<not> accepted c m)
   \<and> (evaluate m w c = WARNING \<longleftrightarrow> accepted c m \<and> \<not> accepted w m)
   \<and> (evaluate m w c = OK \<longleftrightarrow> accepted c m \<and> accepted w m)
   \<and> evaluate m w c \<noteq> UNKNOWN
   \<and> accepted None m
   \<and> (alert_contexts args = Inr contexts \<longrightarrow>
        (\<exists>wc cc ww cw wi ci.
           parse_opt (warning_crit args) = Inr wc \<and> parse_opt (critical_crit args) = Inr cc
         \<and> parse_opt (warning_warn args) = Inr ww \<and> parse_opt (critical_warn args) = Inr cw
         \<and> parse_opt (warning_info args) = Inr wi \<and> parse_opt (critical_info args) = Inr ci
         \<and> (\<forall>x. evaluate_metric contexts (count_metric ''critical'' x) =
                  evaluate (count_metric ''critical'' x) wc cc
              \<and> evaluate_metric contexts (count_metric ''warning'' x) =
                  evaluate (count_metric ''warning'' x) ww cw
              \<and> evaluate_metric contexts (count_metric ''info'' x) =
                  evaluate (count_metric ''info'' x) wi ci)))"
proof -
  have "alert_contexts args = Inr contexts \<longrightarrow>
        (\<exists>wc cc ww cw wi ci.
           parse_opt (warning_crit args) = Inr wc \<and> parse_opt (critical_crit args) = Inr cc
         \<and> parse_opt (warning_warn args) = Inr ww \<and> parse_opt (critical_warn args) = Inr cw
         \<and> parse_opt (warning_info args) = Inr wi \<and> parse_opt (critical_info args) = Inr ci
         \<and> (\<forall>x. evaluate_metric contexts (count_metric ''critical'' x) =
                  evaluate (count_metric ''critical'' x) wc cc
              \<and> evaluate_metric contexts (count_metric ''warning'' x) =
                  evaluate (count_metric ''warning'' x) ww cw
              \<and> evaluate_metric contexts (count_metric ''info'' x) =
                  evaluate (count_metric ''info'' x) wi ci))"
  proof
    assume "alert_contexts args = Inr contexts"
    from alert_contexts_Inr[OF this] obtain wc cc ww cw wi ci where
      p: "parse_opt (warning_crit args) = Inr wc" "parse_opt (critical_crit args) = Inr cc"
        "parse_opt (warning_warn args) = Inr ww" "parse_opt (critical_warn args) = Inr cw"
        "parse_opt (warning_info args) = Inr wi" "parse_opt (critical_info args) = Inr ci"
      and cs: "contexts = [\<lparr>ctx_name = ''critical'', warning = wc, critical = cc\<rparr>,
                   \<lparr>ctx_name = ''warning'', warning = ww, critical = cw\<rparr>,
                   \<lparr>ctx_name = ''info'', warning = wi, critical = ci\<rparr>]"
      by blast
    have "\<forall>x. evaluate_metric contexts (count_metric ''critical'' x) =
                  evaluate (count_metric ''critical'' x) wc cc
              \<and> evaluate_metric contexts (count_metric ''warning'' x) =
                  evaluate (count_metric ''warning'' x) ww cw
              \<and> evaluate_metric contexts (count_metric ''info'' x) =
                  evaluate (count_metric ''info'' x) wi ci"
      by (simp add: cs evaluate_metric_def context_name_def count_metric_def)
    with p show "\<exists>wc cc ww cw wi ci.
           parse_opt (warning_crit args) = Inr wc \<and> parse_opt (critical_crit args) = Inr cc
         \<and> parse_opt (warning_warn args) = Inr ww \<and> parse_opt (critical_warn args) = Inr cw
         \<and> parse_opt (warning_info args) = Inr wi \<and> parse_opt (critical_info args) = Inr ci
         \<and> (\<forall>x. evaluate_metric contexts (count_metric ''critical'' x) =
                  evaluate (count_metric ''critical'' x) wc cc
              \<and> evaluate_metric contexts (count_metric ''warning'' x) =
                  evaluate (count_metric ''warning'' x) ww cw
              \<and> evaluate_metric contexts (count_metric ''info'' x) =
                  evaluate (count_metric ''info'' x) wi ci)"
      by blast
  qed
  moreover have "(evaluate m w c = CRITICAL \<longleftrightarrow> \<not> accepted c m)
   \<and> (evaluate m w c = WARNING \<longleftrightarrow> accepted c m \<and> \<not> accepted w m)
   \<and> (evaluate m w c = OK \<longleftrightarrow> accepted c m \<and> accepted w m)
   \<and> evaluate m w c \<noteq> UNKNOWN \<and> accepted None m"
    by (simp add: evaluate_def accepted_def)
  ultimately show ?thesis by blast
qed

lemma parse_0_1: "parse ''0:1'' = Inr \<lparr>invert = False, start = Limit 0, end_r = Limit 1\<rparr>"
  by (simp add: parse_def parse_body_def parse_bound_def parse_number_def parse_unsigned_def
      digit_val_def verify_def)

theorem evaluate_critical_first_witness:
  "evaluate (count_metric ''critical'' 2) None
     (Some \<lparr>invert = False, start = Limit 0, end_r = Limit 1\<rparr>) = CRITICAL
   \<and> evaluate (count_metric ''warning'' 1)
     (Some \<lparr>invert = False, start = Limit 0, end_r = Limit 0\<rparr>) None = WARNING
   \<and> evaluate (count_metric ''info'' 0) None None = OK
   \<and> (\<exists>contexts.
        alert_contexts ((no_thresholds ''fa'' ''token'')\<lparr>critical_crit := Some ''0:1''\<rparr>)
          = Inr contexts
      \<and> evaluate_metric contexts (count_metric ''critical'' 2) = CRITICAL
      \<and> evaluate_metric contexts (count_metric ''warning'' 1) = OK)"
proof -
  let ?r = "\<lparr>invert = False, start = Limit 0, end_r = Limit 1\<rparr>"
  let ?z = "\<lparr>invert = False, start = Limit 0, end_r = Limit 0\<rparr>"
  let ?args = "(no_thresholds ''fa'' ''token'')\<lparr>critical_crit := Some ''0:1''\<rparr>"
  let ?contexts = "[\<lparr>ctx_name = ''critical'', warning = None, critical = Some ?r\<rparr>,
                   \<lparr>ctx_name = ''warning'', warning = None, critical = None\<rparr>,
                   \<lparr>ctx_name = ''info'', warning = None, critical = None\<rparr>]"
  have ctx: "alert_contexts ?args = Inr ?contexts"
    by (simp add: alert_contexts_def no_thresholds_def ScalarContext_new_def parse_opt_def
        parse_0_1)
  have po: "parse_opt (warning_crit ?args) = Inr None"
    "parse_opt (critical_crit ?args) = Inr (Some ?r)"
    "parse_opt (warning_warn ?args) = Inr None" "parse_opt (critical_warn ?args) = Inr None"
    by (simp_all add: no_thresholds_def parse_opt_def parse_0_1)
  have acc: "\<not> accepted (Some ?r) (count_metric ''critical'' 2)"
    "\<not> accepted (Some ?z) (count_metric ''warning'' 1)"
    by (simp_all add: accepted_def accepts_def limit_of_def count_metric_def num_val_def fle_def)
  have e1: "evaluate (count_metric ''critical'' 2) None (Some ?r) = CRITICAL"
    using evaluate_critical_first[of "count_metric ''critical'' 2" None "Some ?r" ?args ?contexts]
      acc by blast
  have e2: "evaluate (count_metric ''warning'' 1) (Some ?z) None = WARNING"
    using evaluate_critical_first[of "count_metric ''warning'' 1" "Some ?z" None ?args ?contexts]
      acc by blast
  have e3: "evaluate (count_metric ''info'' 0) None None = OK"
    using evaluate_critical_first[of "count_metric ''info'' 0" None None ?args ?contexts]
    by blast
  have e4: "evaluate (count_metric ''warning'' 1) None None = OK"
    using evaluate_critical_first[of "count_metric ''warning'' 1" None None ?args ?contexts]
    by blast
  from evaluate_critical_first[of "count_metric ''critical'' 2" None "Some ?r" ?args ?contexts]
    ctx
  obtain wc cc ww cw where
    p: "parse_opt (warning_crit ?args) = Inr wc" "parse_opt (critical_crit ?args) = Inr cc"
       "parse_opt (warning_warn ?args) = Inr ww" "parse_opt (critical_warn ?args) = Inr cw"
    and w: "\<forall>x. evaluate_metric ?contexts (count_metric ''critical'' x) =
                  evaluate (count_metric ''critical'' x) wc cc
              \<and> evaluate_metric ?contexts (count_metric ''warning'' x) =
                  evaluate (count_metric ''warning'' x) ww cw"
    by blast
  have "wc = None" "cc = Some ?r" "ww = None" "cw = None" using p po by simp_all
  then have "evaluate_metric ?contexts (count_metric ''critical'' 2) = CRITICAL"
    "evaluate_metric ?contexts (count_metric ''warning'' 1) = OK"
    using w e1 e4 by simp_all
  then show ?thesis using e1 e2 e3 ctx by blast
qed

section \<open>The Range Parser\<close>

lemma digit_val_Some:
  "digit_val c = Some d \<Longrightarrow>
   c \<noteq> CHR '':'' \<and> c \<noteq> CHR ''@'' \<and> c \<noteq> CHR ''~'' \<and> c \<noteq> CHR ''.'' \<and> c \<noteq> CHR ''-''"
  by (auto simp: digit_val_def split: if_splits)

lemma parse_digits_chars:
  "parse_digits acc s = Some n \<Longrightarrow> \<forall>c\<in>set s. digit_val c \<noteq> None"
  by (induction s arbitrary: acc) (auto split: option.splits)

lemma parse_unsigned_chars:
  assumes "parse_unsigned s = Some a"
  shows "s \<noteq> [] \<and> (\<forall>c\<in>set s. digit_val c \<noteq> None \<or> c = CHR ''.'') \<and> digit_val (hd s) \<noteq> None"
proof -
  let ?ip = "takeWhile (\<lambda>c. c \<noteq> CHR ''.'') s"
  let ?rest = "dropWhile (\<lambda>c. c \<noteq> CHR ''.'') s"
  have s: "s = ?ip @ ?rest" by simp
  from assms have ne: "?ip \<noteq> []"
    by (auto simp: parse_unsigned_def Let_def split: if_splits)
  from assms ne obtain i where i: "parse_digits 0 ?ip = Some i"
    by (auto simp: parse_unsigned_def Let_def split: if_splits option.splits)
  have ipd: "\<forall>c\<in>set ?ip. digit_val c \<noteq> None" using parse_digits_chars[OF i] .
  have restd: "\<forall>c\<in>set ?rest. digit_val c \<noteq> None \<or> c = CHR ''.''"
  proof (cases ?rest)
    case Nil
    show ?thesis unfolding Nil by simp
  next
    case (Cons dot fp)
    have dot: "dot = CHR ''.''"
      using hd_dropWhile[of "\<lambda>c. c \<noteq> CHR ''.''" s] Cons by simp
    from assms ne i Cons obtain f where "parse_digits 0 fp = Some f"
      by (auto simp: parse_unsigned_def Let_def split: if_splits option.splits)
    from parse_digits_chars[OF this] show ?thesis using Cons dot by simp
  qed
  have all: "\<forall>c\<in>set s. digit_val c \<noteq> None \<or> c = CHR ''.''"
  proof
    fix c assume "c \<in> set s"
    then have "c \<in> set ?ip \<or> c \<in> set ?rest" using s by (metis Un_iff set_append)
    then show "digit_val c \<noteq> None \<or> c = CHR ''.''" using ipd restd by blast
  qed
  have "hd s = hd ?ip" using ne by (metis hd_append2 s)
  then have "digit_val (hd s) \<noteq> None" using ipd ne by (metis hd_in_set)
  moreover have "s \<noteq> []" using ne by auto
  ultimately show ?thesis using all by blast
qed

lemma parse_number_chars:
  assumes "parse_number s = Some a"
  shows "s \<noteq> [] \<and> CHR '':'' \<notin> set s \<and> hd s \<noteq> CHR ''@'' \<and> s \<noteq> ''~''"
proof (cases s)
  case Nil
  then show ?thesis using assms by (simp add: parse_number_def)
next
  case (Cons c cs)
  show ?thesis
  proof (cases "c = CHR ''-''")
    case True
    then obtain b where "parse_unsigned cs = Some b"
      using assms Cons by (auto simp: parse_number_def)
    from parse_unsigned_chars[OF this] show ?thesis
      using Cons True digit_val_Some by fastforce
  next
    case False
    then have "parse_unsigned s = Some a" using assms Cons by (simp add: parse_number_def)
    from parse_unsigned_chars[OF this] show ?thesis
      using Cons digit_val_Some by (cases "digit_val c") (fastforce simp: digit_val_def)+
  qed
qed


lemma split_colon:
  assumes "CHR '':'' \<notin> set sa"
  shows "takeWhile (\<lambda>c. c \<noteq> CHR '':'') (sa @ CHR '':'' # sb) = sa"
    and "tl (dropWhile (\<lambda>c. c \<noteq> CHR '':'') (sa @ CHR '':'' # sb)) = sb"
proof -
  have a: "\<And>x. x \<in> set sa \<Longrightarrow> x \<noteq> CHR '':''" using assms by auto
  show "takeWhile (\<lambda>c. c \<noteq> CHR '':'') (sa @ CHR '':'' # sb) = sa"
    using a by (simp add: takeWhile_append2)
  show "tl (dropWhile (\<lambda>c. c \<noteq> CHR '':'') (sa @ CHR '':'' # sb)) = sb"
    using a by (simp add: dropWhile_append2)
qed

lemma parse_body_colon:
  assumes "CHR '':'' \<notin> set sa"
    and "parse_bound sa = Inr x" and "parse_bound sb = Inr y"
  shows "parse_body neg (sa @ CHR '':'' # sb) = verify neg x y"
  using assms(2,3) split_colon[OF assms(1), of sb]
  by (simp add: parse_body_def Let_def)

lemma parse_bound_number: "parse_number s = Some a \<Longrightarrow> parse_bound s = Inr (Limit a)"
  using parse_number_chars[of s a] by (simp add: parse_bound_def)

lemma parse_bound_marks: "parse_bound [] = Inr Omitted" "parse_bound ''~'' = Inr Unbounded"
  by (simp_all add: parse_bound_def)

lemma parse_body_single:
  assumes "parse_number s = Some b"
  shows "parse_body neg s = verify neg (Limit 0) (Limit b)"
  using assms parse_number_chars[OF assms] by (simp add: parse_body_def)

lemma parse_plain: "s \<noteq> [] \<Longrightarrow> hd s \<noteq> CHR ''@'' \<Longrightarrow> parse s = parse_body False s"
  by (cases s) (simp_all add: parse_def)

lemma parse_at: "parse (CHR ''@'' # s) = parse_body True s"
  by (simp add: parse_def)

lemma verify_invert:
  "verify True x y = map_sum id (\<lambda>r. r\<lparr>invert := True\<rparr>) (verify False x y)"
  by (cases x; cases y) (simp_all add: verify_def)

lemma parse_body_invert:
  "parse_body True s = map_sum id (\<lambda>r. r\<lparr>invert := True\<rparr>) (parse_body False s)"
  by (simp add: parse_body_def Let_def verify_invert split: sum.splits option.splits)

lemma verify_not_inverted: "verify False x y = Inr r \<Longrightarrow> \<not> invert r"
  by (cases x; cases y) (auto simp: verify_def split: if_splits)

lemma parse_body_not_inverted: "parse_body False s = Inr r \<Longrightarrow> \<not> invert r"
  using verify_not_inverted
  by (fastforce simp: parse_body_def Let_def split: sum.splits option.splits if_splits)

lemma accepts_inverted:
  "\<not> invert r \<Longrightarrow> accepts (r\<lparr>invert := True\<rparr>) mn mx v = (\<not> accepts r mn mx v)"
  by (simp add: accepts_def Let_def)

lemma parse_zero: "parse_number ''0'' = Some 0"
  by (simp add: parse_number_def parse_unsigned_def digit_val_def)


lemma parse_range_form:
  assumes "CHR '':'' \<notin> set sa" and "sa = [] \<or> hd sa \<noteq> CHR ''@''"
    and "parse_bound sa = Inr x" and "parse_bound sb = Inr y"
  shows "parse (sa @ CHR '':'' # sb) = verify False x y"
proof -
  have "sa @ CHR '':'' # sb \<noteq> []" by simp
  moreover have "hd (sa @ CHR '':'' # sb) \<noteq> CHR ''@''"
    using assms(2) by (cases sa) auto
  ultimately have "parse (sa @ CHR '':'' # sb) = parse_body False (sa @ CHR '':'' # sb)"
    by (rule parse_plain)
  then show ?thesis using parse_body_colon[OF assms(1,3,4)] by simp
qed

text \<open>
  Claim C2.  \<open>parse\<close> and \<open>accepts\<close> are functions, and they follow the range grammar:
  the empty string accepts every value; \<open>start:end\<close> accepts \<open>v\<close> exactly when
  \<open>start \<le> v \<le> end\<close>; an omitted start is the metric's declared \<open>min\<close> (no lower
  limit without one) and an omitted end its \<open>max\<close> (no upper limit without one); a
  single number \<open>N\<close> is \<open>0:N\<close>; \<open>~\<close> is an explicit infinity; a leading \<open>@\<close>
  inverts acceptance.
\<close>

theorem range_grammar:
  assumes "parse_number sa = Some a" and "parse_number sb = Some b"
  shows
  "parse [] = Inr always \<and> accepts always mn mx v
   \<and> (a \<le> b \<longrightarrow>
        parse (sa @ '':'' @ sb) = Inr \<lparr>invert = False, start = Limit a, end_r = Limit b\<rparr>
      \<and> (accepts \<lparr>invert = False, start = Limit a, end_r = Limit b\<rparr> mn mx v
            \<longleftrightarrow> fle (Fin a) v \<and> fle v (Fin b)))
   \<and> parse ('':'' @ sb) = Inr \<lparr>invert = False, start = Omitted, end_r = Limit b\<rparr>
   \<and> (accepts \<lparr>invert = False, start = Omitted, end_r = Limit b\<rparr> mn mx v
         \<longleftrightarrow> (case mn of None \<Rightarrow> True | Some m \<Rightarrow> fle (num_val m) v) \<and> fle v (Fin b))
   \<and> parse (sa @ '':'') = Inr \<lparr>invert = False, start = Limit a, end_r = Omitted\<rparr>
   \<and> (accepts \<lparr>invert = False, start = Limit a, end_r = Omitted\<rparr> mn mx v
         \<longleftrightarrow> fle (Fin a) v \<and> (case mx of None \<Rightarrow> True | Some m \<Rightarrow> fle v (num_val m)))
   \<and> parse sb = parse (''0:'' @ sb)
   \<and> (0 \<le> b \<longrightarrow>
         parse sb = Inr \<lparr>invert = False, start = Limit 0, end_r = Limit b\<rparr>)
   \<and> parse (''~:'' @ sb) = Inr \<lparr>invert = False, start = Unbounded, end_r = Limit b\<rparr>
   \<and> (accepts \<lparr>invert = False, start = Unbounded, end_r = Limit b\<rparr> mn mx v
         \<longleftrightarrow> fle v (Fin b))
   \<and> parse (sa @ '':~'') = Inr \<lparr>invert = False, start = Limit a, end_r = Unbounded\<rparr>
   \<and> (accepts \<lparr>invert = False, start = Limit a, end_r = Unbounded\<rparr> mn mx v
         \<longleftrightarrow> fle (Fin a) v)
   \<and> (\<forall>s r. s \<noteq> [] \<and> hd s \<noteq> CHR ''@'' \<and> parse s = Inr r \<longrightarrow>
          parse (''@'' @ s) = Inr (r\<lparr>invert := True\<rparr>)
        \<and> (accepts (r\<lparr>invert := True\<rparr>) mn mx v \<longleftrightarrow> \<not> accepts r mn mx v))"
proof -
  note ca = parse_number_chars[OF assms(1)] and cb = parse_number_chars[OF assms(2)]
  note ba = parse_bound_number[OF assms(1)] and bb = parse_bound_number[OF assms(2)]
  have nc: "CHR '':'' \<notin> set sa" "sa = [] \<or> hd sa \<noteq> CHR ''@''" using ca by simp_all
  have e: "CHR '':'' \<notin> set []" "[] = [] \<or> hd [] \<noteq> CHR ''@''" by simp_all
  have t: "CHR '':'' \<notin> set ''~''" "''~'' = [] \<or> hd ''~'' \<noteq> CHR ''@''" by simp_all
  have z: "CHR '':'' \<notin> set ''0''" "''0'' = [] \<or> hd ''0'' \<noteq> CHR ''@''" by simp_all
  have f0: "parse [] = Inr always \<and> accepts always mn mx v"
    by (simp add: parse_def always_def accepts_def limit_of_def)
  have f1: "a \<le> b \<longrightarrow>
        parse (sa @ '':'' @ sb) = Inr \<lparr>invert = False, start = Limit a, end_r = Limit b\<rparr>"
    using parse_range_form[OF nc ba bb] by (simp add: verify_def)
  have f2: "parse ('':'' @ sb) = Inr \<lparr>invert = False, start = Omitted, end_r = Limit b\<rparr>"
    using parse_range_form[OF e parse_bound_marks(1) bb] by (simp add: verify_def)
  have f3: "parse (sa @ '':'') = Inr \<lparr>invert = False, start = Limit a, end_r = Omitted\<rparr>"
    using parse_range_form[OF nc ba parse_bound_marks(1)] by (simp add: verify_def)
  have s1: "parse sb = verify False (Limit 0) (Limit b)"
    using parse_plain[of sb] cb parse_body_single[OF assms(2), of False] by simp
  have s2: "parse (''0:'' @ sb) = verify False (Limit 0) (Limit b)"
    using parse_range_form[OF z parse_bound_number[OF parse_zero] bb] by simp
  have f4: "parse sb = parse (''0:'' @ sb)" using s1 s2 by simp
  have f4': "0 \<le> b \<longrightarrow>
         parse sb = Inr \<lparr>invert = False, start = Limit 0, end_r = Limit b\<rparr>"
    using s1 by (simp add: verify_def)
  have f5: "parse (''~:'' @ sb) = Inr \<lparr>invert = False, start = Unbounded, end_r = Limit b\<rparr>"
    using parse_range_form[OF t parse_bound_marks(2) bb] by (simp add: verify_def)
  have f6: "parse (sa @ '':~'') = Inr \<lparr>invert = False, start = Limit a, end_r = Unbounded\<rparr>"
    using parse_range_form[OF nc ba parse_bound_marks(2)] by (simp add: verify_def)
  have f7: "\<forall>s r. s \<noteq> [] \<and> hd s \<noteq> CHR ''@'' \<and> parse s = Inr r \<longrightarrow>
          parse (''@'' @ s) = Inr (r\<lparr>invert := True\<rparr>)
        \<and> (accepts (r\<lparr>invert := True\<rparr>) mn mx v \<longleftrightarrow> \<not> accepts r mn mx v)"
  proof (intro allI impI)
    fix s r
    assume h: "s \<noteq> [] \<and> hd s \<noteq> CHR ''@'' \<and> parse s = Inr r"
    then have pb: "parse_body False s = Inr r" using parse_plain[of s] by simp
    have "parse (''@'' @ s) = Inr (r\<lparr>invert := True\<rparr>)"
      using parse_at[of s] parse_body_invert[of s] pb by simp
    moreover have "accepts (r\<lparr>invert := True\<rparr>) mn mx v \<longleftrightarrow> \<not> accepts r mn mx v"
      using accepts_inverted[OF parse_body_not_inverted[OF pb] ] by simp
    ultimately show "parse (''@'' @ s) = Inr (r\<lparr>invert := True\<rparr>)
        \<and> (accepts (r\<lparr>invert := True\<rparr>) mn mx v \<longleftrightarrow> \<not> accepts r mn mx v)"
      by simp
  qed
  have acc: "(accepts \<lparr>invert = False, start = Limit a, end_r = Limit b\<rparr> mn mx v
            \<longleftrightarrow> fle (Fin a) v \<and> fle v (Fin b))"
    "(accepts \<lparr>invert = False, start = Omitted, end_r = Limit b\<rparr> mn mx v
         \<longleftrightarrow> (case mn of None \<Rightarrow> True | Some m \<Rightarrow> fle (num_val m) v) \<and> fle v (Fin b))"
    "(accepts \<lparr>invert = False, start = Limit a, end_r = Omitted\<rparr> mn mx v
         \<longleftrightarrow> fle (Fin a) v \<and> (case mx of None \<Rightarrow> True | Some m \<Rightarrow> fle v (num_val m)))"
    "(accepts \<lparr>invert = False, start = Unbounded, end_r = Limit b\<rparr> mn mx v
         \<longleftrightarrow> fle v (Fin b))"
    "(accepts \<lparr>invert = False, start = Limit a, end_r = Unbounded\<rparr> mn mx v
         \<longleftrightarrow> fle (Fin a) v)"
    by (simp_all add: accepts_def limit_of_def split: option.splits)
  show ?thesis
    using f0 f1 f2 f3 f4 f4' f5 f6 f7 acc by blast
qed


theorem range_grammar_witness:
  "(\<exists>r. parse ''10:20'' = Inr r \<and> accepts r None None (Fin 15)
        \<and> \<not> accepts r None None (Fin 5) \<and> \<not> accepts r None None (Fin 25))
   \<and> (\<exists>r. parse ''@10:20'' = Inr r \<and> \<not> accepts r None None (Fin 15)
        \<and> accepts r None None (Fin 5) \<and> accepts r None None (Fin 25))
   \<and> (\<exists>r. parse ''~:5'' = Inr r \<and> (\<forall>x. accepts r None None (Fin x) \<longleftrightarrow> x \<le> 5))
   \<and> (\<exists>r. parse ''20'' = Inr r \<and> parse ''0:20'' = Inr r)"
proof -
  have n10: "parse_number ''10'' = Some 10"
    by (simp add: parse_number_def parse_unsigned_def digit_val_def)
  have n20: "parse_number ''20'' = Some 20"
    by (simp add: parse_number_def parse_unsigned_def digit_val_def)
  have n5: "parse_number ''5'' = Some 5"
    by (simp add: parse_number_def parse_unsigned_def digit_val_def)
  let ?r = "\<lparr>invert = False, start = Limit 10, end_r = Limit 20\<rparr>"
  have p: "parse ''10:20'' = Inr ?r"
    using range_grammar[OF n10 n20, of None None "Fin 15"] by simp
  have a: "accepts ?r None None (Fin 15)" "\<not> accepts ?r None None (Fin 5)"
    "\<not> accepts ?r None None (Fin 25)"
    using range_grammar[OF n10 n20, of None None "Fin 15"]
      range_grammar[OF n10 n20, of None None "Fin 5"]
      range_grammar[OF n10 n20, of None None "Fin 25"]
    by (simp_all add: fle_def)
  have hd: "''10:20'' \<noteq> [] \<and> hd ''10:20'' \<noteq> CHR ''@'' \<and> parse ''10:20'' = Inr ?r"
    using p by simp
  have inv: "parse ''@10:20'' = Inr (?r\<lparr>invert := True\<rparr>)
      \<and> (accepts (?r\<lparr>invert := True\<rparr>) None None v \<longleftrightarrow> \<not> accepts ?r None None v)" for v
  proof -
    from range_grammar[OF n10 n20, of None None v]
    have "\<forall>s r. s \<noteq> [] \<and> hd s \<noteq> CHR ''@'' \<and> parse s = Inr r \<longrightarrow>
          parse (''@'' @ s) = Inr (r\<lparr>invert := True\<rparr>)
        \<and> (accepts (r\<lparr>invert := True\<rparr>) None None v \<longleftrightarrow> \<not> accepts r None None v)"
      by blast
    from this[rule_format, of "''10:20''" ?r] hd show ?thesis by simp
  qed
  have i: "parse ''@10:20'' = Inr (?r\<lparr>invert := True\<rparr>)"
    "\<not> accepts (?r\<lparr>invert := True\<rparr>) None None (Fin 15)"
    "accepts (?r\<lparr>invert := True\<rparr>) None None (Fin 5)"
    "accepts (?r\<lparr>invert := True\<rparr>) None None (Fin 25)"
    using inv[of "Fin 15"] inv[of "Fin 5"] inv[of "Fin 25"] a by blast+
  have t: "parse ''~:5'' = Inr \<lparr>invert = False, start = Unbounded, end_r = Limit 5\<rparr>"
    using range_grammar[OF n5 n5, of None None "Fin 0"] by simp
  have u: "accepts \<lparr>invert = False, start = Unbounded, end_r = Limit 5\<rparr> None None (Fin x)
      \<longleftrightarrow> x \<le> 5" for x
    using range_grammar[OF n5 n5, of None None "Fin x"] by (simp add: fle_def)
  have s: "parse ''20'' = Inr \<lparr>invert = False, start = Limit 0, end_r = Limit 20\<rparr>"
    "parse ''0:20'' = Inr \<lparr>invert = False, start = Limit 0, end_r = Limit 20\<rparr>"
    using range_grammar[OF n10 n20, of None None "Fin 0"] by auto
  show ?thesis using p a i t u s by blast
qed

section \<open>Occupancy in percent\<close>

lemma py_float_nonzero:
  assumes "py_float (Some x) = Inr f" and "\<not> is_zero x"
  shows "f \<noteq> Fin 0"
proof (cases x)
  case (PInt k)
  then have k: "k \<noteq> 0" using assms(2) by (simp add: is_zero_def)
  then have "1 \<le> \<bar>of_int k :: rat\<bar>" by (metis of_int_abs of_int_1_le_iff zero_less_abs_iff int_one_le_iff_zero_less)
  then have nz: "b64 (of_int k) \<noteq> Fin 0" by (rule b64_nonzero)
  have "b64 (of_int k) = f"
    using assms(1) PInt by (simp add: py_float_def split: pyfloat.splits)
  then show ?thesis using nz by simp
next
  case (PFloat g)
  then show ?thesis using assms by (simp add: py_float_def is_zero_def)
qed

lemma truediv_repr:
  assumes "truediv x y = Inr (Fin q)"
  shows "\<exists>z. b64 z = Fin q"
proof -
  have z: "b64 0 = Fin 0" by (simp add: b64_def)
  from assms show ?thesis
    using z
    by (cases x; cases y) (auto simp: truediv_def signed_inf_def split: if_splits)
qed

lemma rhe_nearest:
  "\<bar>x - of_int (round_half_even x)\<bar> \<le> 1 / 2
   \<and> (\<bar>x - of_int (round_half_even x)\<bar> = 1 / 2 \<longrightarrow> even (round_half_even x))"
proof -
  define f where "f = \<lfloor>x\<rfloor>"
  define d where "d = x - of_int f"
  have d0: "0 \<le> d" unfolding d_def f_def by (simp add: of_int_floor_le)
  have d1: "d < 1" unfolding d_def f_def by linarith
  have x: "x = of_int f + d" unfolding d_def by simp
  show ?thesis
  proof (cases "d < 1 / 2")
    case True
    then have "round_half_even x = f"
      unfolding round_half_even_def Let_def f_def[symmetric] d_def[symmetric] by simp
    then show ?thesis using True d0 x by simp
  next
    case False
    note nl = False
    show ?thesis
    proof (cases "1 / 2 < d")
      case True
      then have r: "round_half_even x = f + 1"
        unfolding round_half_even_def Let_def f_def[symmetric] d_def[symmetric] using nl by simp
      have "x - of_int (f + 1) = d - 1" using x by simp
      then show ?thesis unfolding r using True d1 by simp
    next
      case False
      then have h: "d = 1 / 2" using nl by simp
      show ?thesis
      proof (cases "even f")
        case True
        then have r: "round_half_even x = f"
          unfolding round_half_even_def Let_def f_def[symmetric] d_def[symmetric] using h by simp
        show ?thesis unfolding r using h x True by simp
      next
        case False
        then have r: "round_half_even x = f + 1"
          unfolding round_half_even_def Let_def f_def[symmetric] d_def[symmetric] using h by simp
        have "x - of_int (f + 1) = d - 1" using x by simp
        then show ?thesis unfolding r using h False by simp
      qed
    qed
  qed
qed

lemma py_float_cases:
  assumes "py_float (Some v) = Inr f"
  shows "(\<forall>i. v = PInt i \<longrightarrow> f = b64 (of_int i)) \<and> (\<forall>g. v = PFloat g \<longrightarrow> f = g)"
  using assms by (cases v) (auto simp: py_float_def split: pyfloat.splits)

lemma occupancy_pct_rounds:
  assumes "py_float a = Inr x" and "py_float b = Inr y" and "y \<noteq> Fin 0"
  obtains q r where "truediv x y = Inr q" and "py_round q 2 = Inr r"
    and "occupancy_pct a b = Inr (fmul r (Fin 100))"
    and "\<forall>t c. x = Fin t \<and> y = Fin c \<longrightarrow> q = b64 (t / c)"
    and "\<forall>z. q = Fin z \<longrightarrow>
          (\<exists>k w. \<bar>z * 100 - of_int k\<bar> \<le> 1 / 2
             \<and> (\<bar>z * 100 - of_int k\<bar> = 1 / 2 \<longrightarrow> even k)
             \<and> b64 (of_int k / 100) = Fin w \<and> r = Fin w
             \<and> fmul r (Fin 100) = b64 (w * 100))"
    and "q = PosInf \<or> q = NegInf \<or> q = NaN \<longrightarrow> r = q \<and> fmul r (Fin 100) = q"
proof -
  obtain q where q: "truediv x y = Inr q" using assms(3) by (simp add: truediv_def)
  have fin: "\<forall>t c. x = Fin t \<and> y = Fin c \<longrightarrow> q = b64 (t / c)"
    using q assms(3) by (auto simp: truediv_def)
  have "\<exists>r. py_round q 2 = Inr r
     \<and> (\<forall>z. q = Fin z \<longrightarrow>
          (\<exists>k w. \<bar>z * 100 - of_int k\<bar> \<le> 1 / 2
             \<and> (\<bar>z * 100 - of_int k\<bar> = 1 / 2 \<longrightarrow> even k)
             \<and> b64 (of_int k / 100) = Fin w \<and> r = Fin w
             \<and> fmul r (Fin 100) = b64 (w * 100)))
     \<and> (q = PosInf \<or> q = NegInf \<or> q = NaN \<longrightarrow> r = q \<and> fmul r (Fin 100) = q)"
  proof (cases q)
    case (Fin z)
    then obtain u where "b64 u = Fin z" using truediv_repr q by blast
    from round2_finite[OF this] obtain w where
      w: "b64 (of_int (round_half_even (z * 10 ^ 2)) / 10 ^ 2) = Fin w" by blast
    define k where "k = round_half_even (z * 100)"
    have w': "b64 (of_int k / 100) = Fin w" using w by (simp add: k_def)
    have r: "py_round q 2 = Inr (Fin w)" using w Fin by (simp add: py_round_def)
    have n: "\<bar>z * 100 - of_int k\<bar> \<le> 1 / 2
             \<and> (\<bar>z * 100 - of_int k\<bar> = 1 / 2 \<longrightarrow> even k)"
      unfolding k_def by (rule rhe_nearest)
    have m: "fmul (Fin w) (Fin 100) = b64 (w * 100)" by (simp add: fmul_def)
    show ?thesis using Fin r n w' m by auto
  qed (simp_all add: py_round_def fmul_def fsgn_def signed_inf_def)
  then obtain r where rr: "py_round q 2 = Inr r
     \<and> (\<forall>z. q = Fin z \<longrightarrow>
          (\<exists>k w. \<bar>z * 100 - of_int k\<bar> \<le> 1 / 2
             \<and> (\<bar>z * 100 - of_int k\<bar> = 1 / 2 \<longrightarrow> even k)
             \<and> b64 (of_int k / 100) = Fin w \<and> r = Fin w
             \<and> fmul r (Fin 100) = b64 (w * 100)))
     \<and> (q = PosInf \<or> q = NegInf \<or> q = NaN \<longrightarrow> r = q \<and> fmul r (Fin 100) = q)" ..
  then have r: "py_round q 2 = Inr r" by (rule conjunct1)
  note rest = rr[THEN conjunct2]
  have o: "occupancy_pct a b = Inr (fmul r (Fin 100))"
    using assms(1,2) q r by (simp add: occupancy_pct_def)
  show thesis
    by (rule that[OF q r o fin rest[THEN conjunct1] rest[THEN conjunct2]])
qed

text \<open>
  Claim C4.  Array-wide mode (no volume name): for a non-falsy space record whose
  \<open>total\<close> and \<open>capacity\<close> are numbers that \<open>float\<close> converts, \<open>capacity\<close> not zero,
  \<open>probe\<close> produces exactly one Metric, named \<open>FA occupancy\<close>, with unit \<open>%\<close>,
  \<open>min = 0\<close>, \<open>max = 100\<close> and the value \<open>round(total/capacity, 2) * 100\<close>.  The
  value is spelt out: an int field is converted to the nearest double, the quotient
  \<open>q\<close> is the double of the exact quotient, \<open>round(q, 2)\<close> is the double of \<open>k/100\<close>
  where \<open>k\<close> is the integer nearest to \<open>100 q\<close> (the even one of two equally near),
  and only then comes the multiplication by 100, again rounded to a double; an
  infinite or NaN quotient is left as it is.  Neither step raises.
\<close>

theorem array_occupancy_metric:
  assumes "ps n e a = Returns fa" and "get fa = Returns (fainfo # others)"
    and "invalidate_cookie fa = Returns u" and "fainfo \<noteq> []"
    and "map_of fainfo ''total'' = Some tv" and "map_of fainfo ''capacity'' = Some cv"
    and "\<not> is_zero cv"
    and "py_float (Some tv) = Inr tf" and "py_float (Some cv) = Inr cf"
  shows "\<exists>q r. truediv tf cf = Inr q \<and> py_round q 2 = Inr r
     \<and> occpy_probe ps (PureFAoccpy_init e a None p) n =
        (Inr (Some \<lparr>name = ''FA occupancy'', value_m = PFloat (fmul r (Fin 100)),
                     uom = Some ''%'', min_m = Some (PInt 0), max_m = Some (PInt 100),
                     context_m = Some ''occupancy''\<rparr>), Suc n)
     \<and> (\<forall>i. tv = PInt i \<longrightarrow> tf = b64 (of_int i))
     \<and> (\<forall>g. tv = PFloat g \<longrightarrow> tf = g)
     \<and> (\<forall>i. cv = PInt i \<longrightarrow> cf = b64 (of_int i))
     \<and> (\<forall>g. cv = PFloat g \<longrightarrow> cf = g)
     \<and> (\<forall>t c. tf = Fin t \<and> cf = Fin c \<longrightarrow> q = b64 (t / c))
     \<and> (\<forall>z. q = Fin z \<longrightarrow>
          (\<exists>k w. \<bar>z * 100 - of_int k\<bar> \<le> 1 / 2
             \<and> (\<bar>z * 100 - of_int k\<bar> = 1 / 2 \<longrightarrow> even k)
             \<and> b64 (of_int k / 100) = Fin w \<and> r = Fin w
             \<and> fmul r (Fin 100) = b64 (w * 100)))
     \<and> (q = PosInf \<or> q = NegInf \<or> q = NaN \<longrightarrow> r = q \<and> fmul r (Fin 100) = q)"
proof -
  have nz: "cf \<noteq> Fin 0" using assms(9,7) by (rule py_float_nonzero)
  have t: "py_float (map_of fainfo ''total'') = Inr tf"
    and c: "py_float (map_of fainfo ''capacity'') = Inr cf"
    using assms(5,6,8,9) by simp_all
  obtain q r where q: "truediv tf cf = Inr q" and r: "py_round q 2 = Inr r"
    and o: "occupancy_pct (map_of fainfo ''total'') (map_of fainfo ''capacity'') =
            Inr (fmul r (Fin 100))"
    and fin: "\<forall>t c. tf = Fin t \<and> cf = Fin c \<longrightarrow> q = b64 (t / c)"
    and rnd: "\<forall>z. q = Fin z \<longrightarrow>
          (\<exists>k w. \<bar>z * 100 - of_int k\<bar> \<le> 1 / 2
             \<and> (\<bar>z * 100 - of_int k\<bar> = 1 / 2 \<longrightarrow> even k)
             \<and> b64 (of_int k / 100) = Fin w \<and> r = Fin w
             \<and> fmul r (Fin 100) = b64 (w * 100))"
    and inf: "q = PosInf \<or> q = NegInf \<or> q = NaN \<longrightarrow> r = q \<and> fmul r (Fin 100) = q"
    by (rule occupancy_pct_rounds[OF t c nz])
  have p: "occpy_probe ps (PureFAoccpy_init e a None p) n =
        (Inr (Some \<lparr>name = ''FA occupancy'', value_m = PFloat (fmul r (Fin 100)),
                     uom = Some ''%'', min_m = Some (PInt 0), max_m = Some (PInt 100),
                     context_m = Some ''occupancy''\<rparr>), Suc n)"
    using get_space_array[of ps n e a fa fainfo others u p, OF assms(1,2,3)] assms(4) o
    by (simp add: occpy_probe_def PureFAoccpy_init_simps)
  note pt = py_float_cases[OF assms(8)] and pc = py_float_cases[OF assms(9)]
  show ?thesis
    by (rule exI[of _ q], rule exI[of _ r])
      (intro conjI q r p pt[THEN conjunct1] pt[THEN conjunct2] pc[THEN conjunct1]
        pc[THEN conjunct2] fin rnd inf)
qed

text \<open>
  Claim C6.  Per-volume percentage mode (a volume name and the percentage flag): for a
  non-falsy volume record whose \<open>total\<close> and \<open>size\<close> are numbers that \<open>float\<close>
  converts, \<open>size\<close> not zero, \<open>probe\<close> produces exactly one Metric, named
  \<open><volume> occupancy\<close>, with unit \<open>%\<close>, \<open>min = 0\<close>, \<open>max = 100\<close> and the value
  \<open>round(total/size, 2) * 100\<close>: the quotient \<open>q\<close> is the double of the exact quotient,
  \<open>round(q, 2)\<close> is the double of \<open>k/100\<close> where \<open>k\<close> is the integer nearest to
  \<open>100 q\<close> (the even one of two equally near), and the multiplication by 100 comes
  after the rounding.
\<close>

theorem volume_percent_metric:
  assumes "ps n e a = Returns fa" and "get_volume fa v = Returns fainfo"
    and "invalidate_cookie fa = Returns u" and "fainfo \<noteq> []"
    and "map_of fainfo ''total'' = Some tv" and "map_of fainfo ''size'' = Some cv"
    and "\<not> is_zero cv"
    and "py_float (Some tv) = Inr tf" and "py_float (Some cv) = Inr cf"
  shows "\<exists>q r. truediv tf cf = Inr q \<and> py_round q 2 = Inr r
     \<and> occpy_probe ps (PureFAoccpy_init e a (Some v) True) n =
        (Inr (Some \<lparr>name = v @ '' occupancy'', value_m = PFloat (fmul r (Fin 100)),
                     uom = Some ''%'', min_m = Some (PInt 0), max_m = Some (PInt 100),
                     context_m = Some ''occupancy''\<rparr>), Suc n)
     \<and> (\<forall>i. tv = PInt i \<longrightarrow> tf = b64 (of_int i))
     \<and> (\<forall>g. tv = PFloat g \<longrightarrow> tf = g)
     \<and> (\<forall>i. cv = PInt i \<longrightarrow> cf = b64 (of_int i))
     \<and> (\<forall>g. cv = PFloat g \<longrightarrow> cf = g)
     \<and> (\<forall>t c. tf = Fin t \<and> cf = Fin c \<longrightarrow> q = b64 (t / c))
     \<and> (\<forall>z. q = Fin z \<longrightarrow>
          (\<exists>k w. \<bar>z * 100 - of_int k\<bar> \<le> 1 / 2
             \<and> (\<bar>z * 100 - of_int k\<bar> = 1 / 2 \<longrightarrow> even k)
             \<and> b64 (of_int k / 100) = Fin w \<and> r = Fin w
             \<and> fmul r (Fin 100) = b64 (w * 100)))
     \<and> (q = PosInf \<or> q = NegInf \<or> q = NaN \<longrightarrow> r = q \<and> fmul r (Fin 100) = q)"
proof -
  have nz: "cf \<noteq> Fin 0" using assms(9,7) by (rule py_float_nonzero)
  have t: "py_float (map_of fainfo ''total'') = Inr tf"
    and c: "py_float (map_of fainfo ''size'') = Inr cf"
    using assms(5,6,8,9) by simp_all
  obtain q r where q: "truediv tf cf = Inr q" and r: "py_round q 2 = Inr r"
    and o: "occupancy_pct (map_of fainfo ''total'') (map_of fainfo ''size'') =
            Inr (fmul r (Fin 100))"
    and fin: "\<forall>t c. tf = Fin t \<and> cf = Fin c \<longrightarrow> q = b64 (t / c)"
    and rnd: "\<forall>z. q = Fin z \<longrightarrow>
          (\<exists>k w. \<bar>z * 100 - of_int k\<bar> \<le> 1 / 2
             \<and> (\<bar>z * 100 - of_int k\<bar> = 1 / 2 \<longrightarrow> even k)
             \<and> b64 (of_int k / 100) = Fin w \<and> r = Fin w
             \<and> fmul r (Fin 100) = b64 (w * 100))"
    and inf: "q = PosInf \<or> q = NegInf \<or> q = NaN \<longrightarrow> r = q \<and> fmul r (Fin 100) = q"
    by (rule occupancy_pct_rounds[OF t c nz])
  have p: "occpy_probe ps (PureFAoccpy_init e a (Some v) True) n =
        (Inr (Some \<lparr>name = v @ '' occupancy'', value_m = PFloat (fmul r (Fin 100)),
                     uom = Some ''%'', min_m = Some (PInt 0), max_m = Some (PInt 100),
                     context_m = Some ''occupancy''\<rparr>), Suc n)"
    using get_space_volume[of ps n e a fa v fainfo u True, OF assms(1,2,3)] assms(4) o
    by (simp add: occpy_probe_def PureFAoccpy_init_simps)
  note pt = py_float_cases[OF assms(8)] and pc = py_float_cases[OF assms(9)]
  show ?thesis
    by (rule exI[of _ q], rule exI[of _ r])
      (intro conjI q r p pt[THEN conjunct1] pt[THEN conjunct2] pc[THEN conjunct1]
        pc[THEN conjunct2] fin rnd inf)
qed

lemmas round_eval = round_half_even_def Let_def floor_rat_numeral

lemma b64_int_1: "b64 1 = Fin 1"
  by (simp add: b64_pos[of 0] round_eval)

lemma b64_int_3: "b64 3 = Fin 3"
  by (simp add: b64_pos[of 1] round_eval)

lemma b64_int_7: "b64 7 = Fin 7"
  by (simp add: b64_pos[of 2] round_eval)

lemma b64_int_8: "b64 8 = Fin 8"
  by (simp add: b64_pos[of 3] round_eval)

lemma b64_int_29: "b64 29 = Fin 29"
  by (simp add: b64_pos[of 4] round_eval)

lemma b64_int_50: "b64 50 = Fin 50"
  by (simp add: b64_pos[of 5] round_eval)

lemma b64_int_100: "b64 100 = Fin 100"
  by (simp add: b64_pos[of 6] round_eval)

lemma b64_int_200: "b64 200 = Fin 200"
  by (simp add: b64_pos[of 7] round_eval)

lemma b64_int_1000: "b64 1000 = Fin 1000"
  by (simp add: b64_pos[of 9] round_eval)

lemma b64_int_2675: "b64 2675 = Fin 2675"
  by (simp add: b64_pos[of 11] round_eval)

lemma quot_50_200: "truediv (Fin 50) (Fin 200) = Inr (Fin (1 / 2 ^ 2))"
  by (simp add: truediv_def b64_pos[of "- 2"] round_eval)

lemma round_50_200: "py_round (Fin (1 / 2 ^ 2)) 2 = Inr (Fin (1 / 2 ^ 2))"
  by (simp add: py_round_def b64_pos[of "- 2"] round_eval)

lemma scale_50_200: "fmul (Fin (1 / 2 ^ 2)) (Fin 100) = Fin (25)"
  by (simp add: fmul_def b64_pos[of 4] round_eval)

lemma quot_1_8: "truediv (Fin 1) (Fin 8) = Inr (Fin (1 / 2 ^ 3))"
  by (simp add: truediv_def b64_pos[of "- 3"] round_eval)

lemma round_1_8: "py_round (Fin (1 / 2 ^ 3)) 2 = Inr (Fin (1080863910568919 / 2 ^ 53))"
  by (simp add: py_round_def b64_pos[of "- 4"] round_eval)

lemma scale_1_8: "fmul (Fin (1080863910568919 / 2 ^ 53)) (Fin 100) = Fin (12)"
  by (simp add: fmul_def b64_pos[of 3] round_eval)

lemma quot_29_100: "truediv (Fin 29) (Fin 100) = Inr (Fin (5224175567749775 / 2 ^ 54))"
  by (simp add: truediv_def b64_pos[of "- 2"] round_eval)

lemma round_29_100: "py_round (Fin (5224175567749775 / 2 ^ 54)) 2 = Inr (Fin (5224175567749775 / 2 ^ 54))"
  by (simp add: py_round_def b64_pos[of "- 2"] round_eval)

lemma scale_29_100: "fmul (Fin (5224175567749775 / 2 ^ 54)) (Fin 100) = Fin (8162774324609023 / 2 ^ 48)"
  by (simp add: fmul_def b64_pos[of 4] round_eval)

lemma quot_7_100: "truediv (Fin 7) (Fin 100) = Inr (Fin (1261007895663739 / 2 ^ 54))"
  by (simp add: truediv_def b64_pos[of "- 4"] round_eval)

lemma round_7_100: "py_round (Fin (1261007895663739 / 2 ^ 54)) 2 = Inr (Fin (1261007895663739 / 2 ^ 54))"
  by (simp add: py_round_def b64_pos[of "- 4"] round_eval)

lemma scale_7_100: "fmul (Fin (1261007895663739 / 2 ^ 54)) (Fin 100) = Fin (7881299347898369 / 2 ^ 50)"
  by (simp add: fmul_def b64_pos[of 2] round_eval)

lemma quot_1_3: "truediv (Fin 1) (Fin 3) = Inr (Fin (6004799503160661 / 2 ^ 54))"
  by (simp add: truediv_def b64_pos[of "- 2"] round_eval)

lemma round_1_3: "py_round (Fin (6004799503160661 / 2 ^ 54)) 2 = Inr (Fin (5944751508129055 / 2 ^ 54))"
  by (simp add: py_round_def b64_pos[of "- 2"] round_eval)

lemma scale_1_3: "fmul (Fin (5944751508129055 / 2 ^ 54)) (Fin 100) = Fin (33)"
  by (simp add: fmul_def b64_pos[of 5] round_eval)

lemma quot_2675_1000: "truediv (Fin 2675) (Fin 1000) = Inr (Fin (3011782250804019 / 2 ^ 50))"
  by (simp add: truediv_def b64_pos[of 1] round_eval)

lemma round_2675_1000: "py_round (Fin (3011782250804019 / 2 ^ 50)) 2 = Inr (Fin (1503076375634903 / 2 ^ 49))"
  by (simp add: py_round_def b64_pos[of 1] round_eval)

lemma scale_2675_1000: "fmul (Fin (1503076375634903 / 2 ^ 49)) (Fin 100) = Fin (267)"
  by (simp add: fmul_def b64_pos[of 8] round_eval)

lemma parse_0_80: "parse ''0:80'' = Inr \<lparr>invert = False, start = Limit 0, end_r = Limit 80\<rparr>"
  by (simp add: parse_def parse_body_def parse_bound_def parse_number_def parse_unsigned_def
      digit_val_def verify_def)

lemma parse_0_95: "parse ''0:95'' = Inr \<lparr>invert = False, start = Limit 0, end_r = Limit 95\<rparr>"
  by (simp add: parse_def parse_body_def parse_bound_def parse_number_def parse_unsigned_def
      digit_val_def verify_def)

theorem array_occupancy_metric_witness:
  "occpy_probe (demo_rest (demo_array None [ [(''total'', PInt 50), (''capacity'', PInt 200)] ] []))
      (PureFAoccpy_init ''fa'' ''token'' None False) 0 =
     (Inr (Some \<lparr>name = ''FA occupancy'', value_m = PFloat (Fin (25)),
                  uom = Some ''%'', min_m = Some (PInt 0), max_m = Some (PInt 100),
                  context_m = Some ''occupancy''\<rparr>), 1)
   \<and> occpy_probe (demo_rest (demo_array None [ [(''total'', PInt 1), (''capacity'', PInt 8)] ] []))
      (PureFAoccpy_init ''fa'' ''token'' None False) 0 =
     (Inr (Some \<lparr>name = ''FA occupancy'', value_m = PFloat (Fin (12)),
                  uom = Some ''%'', min_m = Some (PInt 0), max_m = Some (PInt 100),
                  context_m = Some ''occupancy''\<rparr>), 1)
   \<and> occpy_probe (demo_rest (demo_array None [ [(''total'', PInt 29), (''capacity'', PInt 100)] ] []))
      (PureFAoccpy_init ''fa'' ''token'' None False) 0 =
     (Inr (Some \<lparr>name = ''FA occupancy'', value_m = PFloat (Fin (8162774324609023 / 2 ^ 48)),
                  uom = Some ''%'', min_m = Some (PInt 0), max_m = Some (PInt 100),
                  context_m = Some ''occupancy''\<rparr>), 1)
   \<and> fst (occpy_main
        (demo_rest (demo_array None [ [(''total'', PInt 50), (''capacity'', PInt 200)] ] []))
        \<lparr>occpy_args.endpoint = ''fa'', apitoken = ''token'', vol = None,
         warning = ''0:80'', critical = ''0:95'', percentage = False\<rparr> 0) = OK"
proof -
  have c1: "occpy_probe (demo_rest (demo_array None [ [(''total'', PInt 50), (''capacity'', PInt 200)] ] []))
      (PureFAoccpy_init ''fa'' ''token'' None False) 0 =
     (Inr (Some \<lparr>name = ''FA occupancy'', value_m = PFloat (Fin (25)),
                  uom = Some ''%'', min_m = Some (PInt 0), max_m = Some (PInt 100),
                  context_m = Some ''occupancy''\<rparr>), 1)"
  proof -
    let ?rec = "[(''total'', PInt 50), (''capacity'', PInt 200)]"
    let ?fa = "demo_array None [ [(''total'', PInt 50), (''capacity'', PInt 200)] ] []"
    let ?ps = "demo_rest ?fa"
    have h: "?ps 0 ''fa'' ''token'' = Returns ?fa" "get ?fa = Returns (?rec # [])"
      "invalidate_cookie ?fa = Returns ()" "?rec \<noteq> []"
      "map_of ?rec ''total'' = Some (PInt 50)" "map_of ?rec ''capacity'' = Some (PInt 200)"
      "\<not> is_zero (PInt 200)"
      "py_float (Some (PInt 50)) = Inr (Fin 50)" "py_float (Some (PInt 200)) = Inr (Fin 200)"
      by (simp_all add: demo_rest_def demo_array_def is_zero_def py_float_def
          b64_int_50 b64_int_200)
    from array_occupancy_metric[of ?ps 0 "''fa''" "''token''", OF h, of False]
    obtain q r where q: "truediv (Fin 50) (Fin 200) = Inr q" and r: "py_round q 2 = Inr r"
      and p: "occpy_probe ?ps (PureFAoccpy_init ''fa'' ''token'' None False) 0 =
        (Inr (Some \<lparr>name = ''FA occupancy'', value_m = PFloat (fmul r (Fin 100)),
                     uom = Some ''%'', min_m = Some (PInt 0), max_m = Some (PInt 100),
                     context_m = Some ''occupancy''\<rparr>), Suc 0)"
      by (elim exE conjE) (rule that)
    have "q = Fin (1 / 2 ^ 2)" using q quot_50_200 by simp
    then have "r = Fin (1 / 2 ^ 2)" using r round_50_200 by simp
    then have "fmul r (Fin 100) = Fin (25)" using scale_50_200 by simp
    then show ?thesis using p by simp
  qed
  have c2: "occpy_probe (demo_rest (demo_array None [ [(''total'', PInt 1), (''capacity'', PInt 8)] ] []))
      (PureFAoccpy_init ''fa'' ''token'' None False) 0 =
     (Inr (Some \<lparr>name = ''FA occupancy'', value_m = PFloat (Fin (12)),
                  uom = Some ''%'', min_m = Some (PInt 0), max_m = Some (PInt 100),
                  context_m = Some ''occupancy''\<rparr>), 1)"
  proof -
    let ?rec = "[(''total'', PInt 1), (''capacity'', PInt 8)]"
    let ?fa = "demo_array None [ [(''total'', PInt 1), (''capacity'', PInt 8)] ] []"
    let ?ps = "demo_rest ?fa"
    have h: "?ps 0 ''fa'' ''token'' = Returns ?fa" "get ?fa = Returns (?rec # [])"
      "invalidate_cookie ?fa = Returns ()" "?rec \<noteq> []"
      "map_of ?rec ''total'' = Some (PInt 1)" "map_of ?rec ''capacity'' = Some (PInt 8)"
      "\<not> is_zero (PInt 8)"
      "py_float (Some (PInt 1)) = Inr (Fin 1)" "py_float (Some (PInt 8)) = Inr (Fin 8)"
      by (simp_all add: demo_rest_def demo_array_def is_zero_def py_float_def
          b64_int_1 b64_int_8)
    from array_occupancy_metric[of ?ps 0 "''fa''" "''token''", OF h, of False]
    obtain q r where q: "truediv (Fin 1) (Fin 8) = Inr q" and r: "py_round q 2 = Inr r"
      and p: "occpy_probe ?ps (PureFAoccpy_init ''fa'' ''token'' None False) 0 =
        (Inr (Some \<lparr>name = ''FA occupancy'', value_m = PFloat (fmul r (Fin 100)),
                     uom = Some ''%'', min_m = Some (PInt 0), max_m = Some (PInt 100),
                     context_m = Some ''occupancy''\<rparr>), Suc 0)"
      by (elim exE conjE) (rule that)
    have "q = Fin (1 / 2 ^ 3)" using q quot_1_8 by simp
    then have "r = Fin (1080863910568919 / 2 ^ 53)" using r round_1_8 by simp
    then have "fmul r (Fin 100) = Fin (12)" using scale_1_8 by simp
    then show ?thesis using p by simp
  qed
  have c3: "occpy_probe (demo_rest (demo_array None [ [(''total'', PInt 29), (''capacity'', PInt 100)] ] []))
      (PureFAoccpy_init ''fa'' ''token'' None False) 0 =
     (Inr (Some \<lparr>name = ''FA occupancy'', value_m = PFloat (Fin (8162774324609023 / 2 ^ 48)),
                  uom = Some ''%'', min_m = Some (PInt 0), max_m = Some (PInt 100),
                  context_m = Some ''occupancy''\<rparr>), 1)"
  proof -
    let ?rec = "[(''total'', PInt 29), (''capacity'', PInt 100)]"
    let ?fa = "demo_array None [ [(''total'', PInt 29), (''capacity'', PInt 100)] ] []"
    let ?ps = "demo_rest ?fa"
    have h: "?ps 0 ''fa'' ''token'' = Returns ?fa" "get ?fa = Returns (?rec # [])"
      "invalidate_cookie ?fa = Returns ()" "?rec \<noteq> []"
      "map_of ?rec ''total'' = Some (PInt 29)" "map_of ?rec ''capacity'' = Some (PInt 100)"
      "\<not> is_zero (PInt 100)"
      "py_float (Some (PInt 29)) = Inr (Fin 29)" "py_float (Some (PInt 100)) = Inr (Fin 100)"
      by (simp_all add: demo_rest_def demo_array_def is_zero_def py_float_def
          b64_int_29 b64_int_100)
    from array_occupancy_metric[of ?ps 0 "''fa''" "''token''", OF h, of False]
    obtain q r where q: "truediv (Fin 29) (Fin 100) = Inr q" and r: "py_round q 2 = Inr r"
      and p: "occpy_probe ?ps (PureFAoccpy_init ''fa'' ''token'' None False) 0 =
        (Inr (Some \<lparr>name = ''FA occupancy'', value_m = PFloat (fmul r (Fin 100)),
                     uom = Some ''%'', min_m = Some (PInt 0), max_m = Some (PInt 100),
                     context_m = Some ''occupancy''\<rparr>), Suc 0)"
      by (elim exE conjE) (rule that)
    have "q = Fin (5224175567749775 / 2 ^ 54)" using q quot_29_100 by simp
    then have "r = Fin (5224175567749775 / 2 ^ 54)" using r round_29_100 by simp
    then have "fmul r (Fin 100) = Fin (8162774324609023 / 2 ^ 48)" using scale_29_100 by simp
    then show ?thesis using p by simp
  qed
  have v: "fst (occpy_main
        (demo_rest (demo_array None [ [(''total'', PInt 50), (''capacity'', PInt 200)] ] []))
        \<lparr>occpy_args.endpoint = ''fa'', apitoken = ''token'', vol = None,
         warning = ''0:80'', critical = ''0:95'', percentage = False\<rparr> 0) = OK"
    using c1
    by (simp add: occpy_main_def ScalarContext_new_def parse_opt_def parse_0_80 parse_0_95
        check_def metrics_of_def evaluate_metric_def context_name_def evaluate_def accepted_def
        accepts_def limit_of_def num_val_def fle_def aggregate_def PureFAoccpy_init_def)
  show ?thesis using c1 c2 c3 v by (intro conjI)
qed

theorem volume_percent_metric_witness:
  "occpy_probe (demo_rest (demo_array None [] [(''total'', PInt 7), (''size'', PInt 100)]))
      (PureFAoccpy_init ''fa'' ''token'' (Some ''vol1'') True) 0 =
     (Inr (Some \<lparr>name = ''vol1 occupancy'', value_m = PFloat (Fin (7881299347898369 / 2 ^ 50)),
                  uom = Some ''%'', min_m = Some (PInt 0), max_m = Some (PInt 100),
                  context_m = Some ''occupancy''\<rparr>), 1)
   \<and> occpy_probe (demo_rest (demo_array None [] [(''total'', PInt 1), (''size'', PInt 3)]))
      (PureFAoccpy_init ''fa'' ''token'' (Some ''vol1'') True) 0 =
     (Inr (Some \<lparr>name = ''vol1 occupancy'', value_m = PFloat (Fin (33)),
                  uom = Some ''%'', min_m = Some (PInt 0), max_m = Some (PInt 100),
                  context_m = Some ''occupancy''\<rparr>), 1)
   \<and> occpy_probe (demo_rest (demo_array None [] [(''total'', PInt 2675), (''size'', PInt 1000)]))
      (PureFAoccpy_init ''fa'' ''token'' (Some ''vol1'') True) 0 =
     (Inr (Some \<lparr>name = ''vol1 occupancy'', value_m = PFloat (Fin (267)),
                  uom = Some ''%'', min_m = Some (PInt 0), max_m = Some (PInt 100),
                  context_m = Some ''occupancy''\<rparr>), 1)"
proof -
  have c1: "occpy_probe (demo_rest (demo_array None [] [(''total'', PInt 7), (''size'', PInt 100)]))
      (PureFAoccpy_init ''fa'' ''token'' (Some ''vol1'') True) 0 =
     (Inr (Some \<lparr>name = ''vol1 occupancy'', value_m = PFloat (Fin (7881299347898369 / 2 ^ 50)),
                  uom = Some ''%'', min_m = Some (PInt 0), max_m = Some (PInt 100),
                  context_m = Some ''occupancy''\<rparr>), 1)"
  proof -
    let ?rec = "[(''total'', PInt 7), (''size'', PInt 100)]"
    let ?fa = "demo_array None [] [(''total'', PInt 7), (''size'', PInt 100)]"
    let ?ps = "demo_rest ?fa"
    have h: "?ps 0 ''fa'' ''token'' = Returns ?fa" "get_volume ?fa ''vol1'' = Returns ?rec"
      "invalidate_cookie ?fa = Returns ()" "?rec \<noteq> []"
      "map_of ?rec ''total'' = Some (PInt 7)" "map_of ?rec ''size'' = Some (PInt 100)"
      "\<not> is_zero (PInt 100)"
      "py_float (Some (PInt 7)) = Inr (Fin 7)" "py_float (Some (PInt 100)) = Inr (Fin 100)"
      by (simp_all add: demo_rest_def demo_array_def is_zero_def py_float_def
          b64_int_7 b64_int_100)
    from volume_percent_metric[of ?ps 0 "''fa''" "''token''", OF h]
    obtain q r where q: "truediv (Fin 7) (Fin 100) = Inr q" and r: "py_round q 2 = Inr r"
      and p: "occpy_probe ?ps (PureFAoccpy_init ''fa'' ''token'' (Some ''vol1'') True) 0 =
        (Inr (Some \<lparr>name = ''vol1'' @ '' occupancy'', value_m = PFloat (fmul r (Fin 100)),
                     uom = Some ''%'', min_m = Some (PInt 0), max_m = Some (PInt 100),
                     context_m = Some ''occupancy''\<rparr>), Suc 0)"
      by (elim exE conjE) (rule that)
    have "q = Fin (1261007895663739 / 2 ^ 54)" using q quot_7_100 by simp
    then have "r = Fin (1261007895663739 / 2 ^ 54)" using r round_7_100 by simp
    then have "fmul r (Fin 100) = Fin (7881299347898369 / 2 ^ 50)" using scale_7_100 by simp
    then show ?thesis using p by simp
  qed
  have c2: "occpy_probe (demo_rest (demo_array None [] [(''total'', PInt 1), (''size'', PInt 3)]))
      (PureFAoccpy_init ''fa'' ''token'' (Some ''vol1'') True) 0 =
     (Inr (Some \<lparr>name = ''vol1 occupancy'', value_m = PFloat (Fin (33)),
                  uom = Some ''%'', min_m = Some (PInt 0), max_m = Some (PInt 100),
                  context_m = Some ''occupancy''\<rparr>), 1)"
  proof -
    let ?rec = "[(''total'', PInt 1), (''size'', PInt 3)]"
    let ?fa = "demo_array None [] [(''total'', PInt 1), (''size'', PInt 3)]"
    let ?ps = "demo_rest ?fa"
    have h: "?ps 0 ''fa'' ''token'' = Returns ?fa" "get_volume ?fa ''vol1'' = Returns ?rec"
      "invalidate_cookie ?fa = Returns ()" "?rec \<noteq> []"
      "map_of ?rec ''total'' = Some (PInt 1)" "map_of ?rec ''size'' = Some (PInt 3)"
      "\<not> is_zero (PInt 3)"
      "py_float (Some (PInt 1)) = Inr (Fin 1)" "py_float (Some (PInt 3)) = Inr (Fin 3)"
      by (simp_all add: demo_rest_def demo_array_def is_zero_def py_float_def
          b64_int_1 b64_int_3)
    from volume_percent_metric[of ?ps 0 "''fa''" "''token''", OF h]
    obtain q r where q: "truediv (Fin 1) (Fin 3) = Inr q" and r: "py_round q 2 = Inr r"
      and p: "occpy_probe ?ps (PureFAoccpy_init ''fa'' ''token'' (Some ''vol1'') True) 0 =
        (Inr (Some \<lparr>name = ''vol1'' @ '' occupancy'', value_m = PFloat (fmul r (Fin 100)),
                     uom = Some ''%'', min_m = Some (PInt 0), max_m = Some (PInt 100),
                     context_m = Some ''occupancy''\<rparr>), Suc 0)"
      by (elim exE conjE) (rule that)
    have "q = Fin (6004799503160661 / 2 ^ 54)" using q quot_1_3 by simp
    then have "r = Fin (5944751508129055 / 2 ^ 54)" using r round_1_3 by simp
    then have "fmul r (Fin 100) = Fin (33)" using scale_1_3 by simp
    then show ?thesis using p by simp
  qed
  have c3: "occpy_probe (demo_rest (demo_array None [] [(''total'', PInt 2675), (''size'', PInt 1000)]))
      (PureFAoccpy_init ''fa'' ''token'' (Some ''vol1'') True) 0 =
     (Inr (Some \<lparr>name = ''vol1 occupancy'', value_m = PFloat (Fin (267)),
                  uom = Some ''%'', min_m = Some (PInt 0), max_m = Some (PInt 100),
                  context_m = Some ''occupancy''\<rparr>), 1)"
  proof -
    let ?rec = "[(''total'', PInt 2675), (''size'', PInt 1000)]"
    let ?fa = "demo_array None [] [(''total'', PInt 2675), (''size'', PInt 1000)]"
    let ?ps = "demo_rest ?fa"
    have h: "?ps 0 ''fa'' ''token'' = Returns ?fa" "get_volume ?fa ''vol1'' = Returns ?rec"
      "invalidate_cookie ?fa = Returns ()" "?rec \<noteq> []"
      "map_of ?rec ''total'' = Some (PInt 2675)" "map_of ?rec ''size'' = Some (PInt 1000)"
      "\<not> is_zero (PInt 1000)"
      "py_float (Some (PInt 2675)) = Inr (Fin 2675)" "py_float (Some (PInt 1000)) = Inr (Fin 1000)"
      by (simp_all add: demo_rest_def demo_array_def is_zero_def py_float_def
          b64_int_2675 b64_int_1000)
    from volume_percent_metric[of ?ps 0 "''fa''" "''token''", OF h]
    obtain q r where q: "truediv (Fin 2675) (Fin 1000) = Inr q" and r: "py_round q 2 = Inr r"
      and p: "occpy_probe ?ps (PureFAoccpy_init ''fa'' ''token'' (Some ''vol1'') True) 0 =
        (Inr (Some \<lparr>name = ''vol1'' @ '' occupancy'', value_m = PFloat (fmul r (Fin 100)),
                     uom = Some ''%'', min_m = Some (PInt 0), max_m = Some (PInt 100),
                     context_m = Some ''occupancy''\<rparr>), Suc 0)"
      by (elim exE conjE) (rule that)
    have "q = Fin (3011782250804019 / 2 ^ 50)" using q quot_2675_1000 by simp
    then have "r = Fin (1503076375634903 / 2 ^ 49)" using r round_2675_1000 by simp
    then have "fmul r (Fin 100) = Fin (267)" using scale_2675_1000 by simp
    then show ?thesis using p by simp
  qed
  show ?thesis using c1 c2 c3 by (intro conjI)
qed

end
